theory Spec2Isabelle
  imports Main "HOL-Library.Sublist" "HOL-Library.AList"
begin

unbundle bit_operations_syntax

section \<open>just-delete.py: a deletion engine that repairs permissions\<close>

text \<open>
  The script deletes paths like \<^verbatim>\<open>rm\<close>, and on a permission error makes the
  parent directory (for a deletion) or the directory itself (for an open) owner-writable
  and retries once. Everything it does is a call of Python's \<^verbatim>\<open>os\<close> module, so the
  embedding is parametric in the operating system: a record of functions over a world
  type \<open>'w\<close>, one per call the script makes. Each call returns an error number or a
  value (Python raises \<^verbatim>\<open>OSError\<close> for the former), together with the new world;
  another process changing the file system between two calls is one more behaviour of
  these functions. The script's own state is passed explicitly: the two context objects
  it mutates are returned updated, and the calls made and the lines written to stderr
  are recorded in the state.
\<close>

subsection \<open>Values of the Python program\<close>

type_synonym bytes = string
type_synonym fd = int

text \<open>
  \<^verbatim>\<open>OSError\<close> by its error number. Python raises the subclass
  \<^verbatim>\<open>FileNotFoundError\<close> for \<open>ENOENT\<close> and \<^verbatim>\<open>PermissionError\<close> for
  \<open>EACCES\<close> and \<open>EPERM\<close>; every other number is a plain \<^verbatim>\<open>OSError\<close> or a
  subclass the script does not name.
\<close>

datatype errno = ENOENT | EACCES | EPERM | ENOTEMPTY | ENOTDIR | EBADF | ELOOP | EINVAL | EISDIR | EIO

definition is_FileNotFoundError :: "errno \<Rightarrow> bool" where
  "is_FileNotFoundError e = (e = ENOENT)"

definition is_PermissionError :: "errno \<Rightarrow> bool" where
  "is_PermissionError e = (e = EACCES \<or> e = EPERM)"

text \<open>
  The exceptions that can leave a function of the script: an \<^verbatim>\<open>OSError\<close>, the
  \<^verbatim>\<open>UnboundLocalError\<close> of \<^verbatim>\<open>return dir_fd\<close> when the loop of
  \<^verbatim>\<open>open_with_chmod\<close> ends without binding it, and the \<^verbatim>\<open>AssertionError\<close> of
  \<^verbatim>\<open>assert parent_name\<close>.
\<close>

datatype exn = OSError errno | UnboundLocalError | AssertionError

text \<open>The constants and predicates of Python's \<^verbatim>\<open>stat\<close> module that the script uses.\<close>

definition S_IWUSR :: nat where
  "S_IWUSR = 128"

definition S_IMODE :: "nat \<Rightarrow> nat" where
  "S_IMODE st_mode = st_mode AND 4095"

definition S_ISDIR :: "nat \<Rightarrow> bool" where
  "S_ISDIR st_mode = (st_mode AND 61440 = 16384)"

text \<open>
  \<^verbatim>\<open>os.path.join\<close> for two arguments and \<^verbatim>\<open>os.path.split\<close>, as
  \<^verbatim>\<open>posixpath\<close> defines them. \<^verbatim>\<open>os.fsdecode\<close> and \<^verbatim>\<open>os.fsencode\<close> are
  inverse bijections between byte strings and the strings Python shows them as; both
  are the identity here.
\<close>

definition path_join :: "bytes \<Rightarrow> bytes \<Rightarrow> bytes" where
  "path_join a b =
     (if b \<noteq> [] \<and> hd b = CHR ''/'' then b
      else if a = [] \<or> last a = CHR ''/'' then a @ b
      else a @ ''/'' @ b)"

definition rstrip_sep :: "bytes \<Rightarrow> bytes" where
  "rstrip_sep p = rev (dropWhile (\<lambda>c. c = CHR ''/'') (rev p))"

definition path_split :: "bytes \<Rightarrow> bytes \<times> bytes" where
  "path_split p =
     (let tail = rev (takeWhile (\<lambda>c. c \<noteq> CHR ''/'') (rev p));
          head = rev (dropWhile (\<lambda>c. c \<noteq> CHR ''/'') (rev p))
      in (if head \<noteq> [] \<and> head \<noteq> replicate (length head) CHR ''/'' then rstrip_sep head else head,
          tail))"

definition fsdecode :: "bytes \<Rightarrow> string" where
  "fsdecode b = b"

definition fsencode :: "string \<Rightarrow> bytes" where
  "fsencode n = n"

definition printable_path :: "bytes \<Rightarrow> bytes \<Rightarrow> string" where
  "printable_path parent_name child_name = fsdecode (path_join parent_name child_name)"

subsection \<open>The operating system, the calls made and the lines logged\<close>

text \<open>
  One field per call of the \<^verbatim>\<open>os\<close> module. A \<open>dir_fd\<close> argument is the descriptor
  the name is resolved against; \<open>os_open\<close> takes \<open>None\<close> for the call without one.
  Both stat calls return \<open>st_mode\<close>. \<open>os_scandir\<close> returns an iterator (a number),
  \<open>os_scandir_next\<close> its next entry's name or \<open>None\<close> at the end,
  \<open>os_entry_is_dir\<close> is \<^verbatim>\<open>entry.is_dir(follow_symlinks=False)\<close>, and
  \<open>os_scandir_close\<close> is the close that leaving the \<^verbatim>\<open>with\<close> block performs.
\<close>

record 'w os =
  os_realpath :: "bytes \<Rightarrow> 'w \<Rightarrow> (errno + bytes) \<times> 'w"
  os_open :: "bytes \<Rightarrow> fd option \<Rightarrow> 'w \<Rightarrow> (errno + fd) \<times> 'w"
  os_close :: "fd \<Rightarrow> 'w \<Rightarrow> (errno + unit) \<times> 'w"
  os_lstat :: "bytes \<Rightarrow> fd \<Rightarrow> 'w \<Rightarrow> (errno + nat) \<times> 'w"
  os_chmod :: "bytes \<Rightarrow> nat \<Rightarrow> fd \<Rightarrow> 'w \<Rightarrow> (errno + unit) \<times> 'w"
  os_fstat :: "fd \<Rightarrow> 'w \<Rightarrow> (errno + nat) \<times> 'w"
  os_fchmod :: "fd \<Rightarrow> nat \<Rightarrow> 'w \<Rightarrow> (errno + unit) \<times> 'w"
  os_rmdir :: "bytes \<Rightarrow> fd \<Rightarrow> 'w \<Rightarrow> (errno + unit) \<times> 'w"
  os_unlink :: "bytes \<Rightarrow> fd \<Rightarrow> 'w \<Rightarrow> (errno + unit) \<times> 'w"
  os_scandir :: "fd \<Rightarrow> 'w \<Rightarrow> (errno + nat) \<times> 'w"
  os_scandir_next :: "nat \<Rightarrow> 'w \<Rightarrow> (errno + string option) \<times> 'w"
  os_entry_is_dir :: "nat \<Rightarrow> string \<Rightarrow> 'w \<Rightarrow> (errno + bool) \<times> 'w"
  os_scandir_close :: "nat \<Rightarrow> 'w \<Rightarrow> 'w"

datatype event =
    Realpath bytes "errno + bytes"
  | Open bytes "fd option" "errno + fd"
  | Close fd "errno + unit"
  | Lstat bytes fd "errno + nat"
  | Chmod bytes nat fd "errno + unit"
  | Fstat fd "errno + nat"
  | Fchmod fd nat "errno + unit"
  | Rmdir bytes fd "errno + unit"
  | Unlink bytes fd "errno + unit"
  | Scandir fd "errno + nat"
  | ScandirNext nat "errno + string option"
  | EntryIsDir nat string "errno + bool"
  | ScandirClose nat

text \<open>
  A line on stderr: \<^verbatim>\<open>log_error\<close> prints the message, the \<^verbatim>\<open>repr\<close> of the
  printable path and the exception; the verbose line is the printable path alone.
\<close>

datatype logline = LogError string string errno | LogPath string

record 'w state =
  world :: 'w
  trace :: "event list"
  stderr :: "logline list"

definition log_error :: "string \<Rightarrow> bytes \<Rightarrow> bytes \<Rightarrow> errno \<Rightarrow> 'w state \<Rightarrow> 'w state" where
  "log_error message parent_name child_name exception s =
     s\<lparr>stderr := stderr s @ [LogError message (printable_path parent_name child_name) exception]\<rparr>"

definition log_path :: "string \<Rightarrow> 'w state \<Rightarrow> 'w state" where
  "log_path path s = s\<lparr>stderr := stderr s @ [LogPath path]\<rparr>"

text \<open>A call: the operating system answers and moves to its next world; the call is recorded.\<close>

definition syscall :: "('w \<Rightarrow> 'a \<times> 'w) \<Rightarrow> ('a \<Rightarrow> event) \<Rightarrow> 'w state \<Rightarrow> 'a \<times> 'w state" where
  "syscall f ev s = (case f (world s) of (r, w) \<Rightarrow> (r, s\<lparr>world := w, trace := trace s @ [ev r]\<rparr>))"

definition sys_realpath :: "'w os \<Rightarrow> bytes \<Rightarrow> 'w state \<Rightarrow> (errno + bytes) \<times> 'w state" where
  "sys_realpath os path = syscall (os_realpath os path) (Realpath path)"

definition sys_open :: "'w os \<Rightarrow> bytes \<Rightarrow> fd option \<Rightarrow> 'w state \<Rightarrow> (errno + fd) \<times> 'w state" where
  "sys_open os path dir_fd = syscall (os_open os path dir_fd) (Open path dir_fd)"

definition sys_lstat :: "'w os \<Rightarrow> bytes \<Rightarrow> fd \<Rightarrow> 'w state \<Rightarrow> (errno + nat) \<times> 'w state" where
  "sys_lstat os path dir_fd = syscall (os_lstat os path dir_fd) (Lstat path dir_fd)"

definition sys_chmod :: "'w os \<Rightarrow> bytes \<Rightarrow> nat \<Rightarrow> fd \<Rightarrow> 'w state \<Rightarrow> (errno + unit) \<times> 'w state" where
  "sys_chmod os path mode dir_fd = syscall (os_chmod os path mode dir_fd) (Chmod path mode dir_fd)"

definition sys_fstat :: "'w os \<Rightarrow> fd \<Rightarrow> 'w state \<Rightarrow> (errno + nat) \<times> 'w state" where
  "sys_fstat os f = syscall (os_fstat os f) (Fstat f)"

definition sys_fchmod :: "'w os \<Rightarrow> fd \<Rightarrow> nat \<Rightarrow> 'w state \<Rightarrow> (errno + unit) \<times> 'w state" where
  "sys_fchmod os f mode = syscall (os_fchmod os f mode) (Fchmod f mode)"

definition sys_rmdir :: "'w os \<Rightarrow> bytes \<Rightarrow> fd \<Rightarrow> 'w state \<Rightarrow> (errno + unit) \<times> 'w state" where
  "sys_rmdir os path dir_fd = syscall (os_rmdir os path dir_fd) (Rmdir path dir_fd)"

definition sys_unlink :: "'w os \<Rightarrow> bytes \<Rightarrow> fd \<Rightarrow> 'w state \<Rightarrow> (errno + unit) \<times> 'w state" where
  "sys_unlink os path dir_fd = syscall (os_unlink os path dir_fd) (Unlink path dir_fd)"

definition sys_scandir :: "'w os \<Rightarrow> fd \<Rightarrow> 'w state \<Rightarrow> (errno + nat) \<times> 'w state" where
  "sys_scandir os f = syscall (os_scandir os f) (Scandir f)"

definition sys_scandir_next :: "'w os \<Rightarrow> nat \<Rightarrow> 'w state \<Rightarrow> (errno + string option) \<times> 'w state" where
  "sys_scandir_next os it = syscall (os_scandir_next os it) (ScandirNext it)"

definition sys_entry_is_dir :: "'w os \<Rightarrow> nat \<Rightarrow> string \<Rightarrow> 'w state \<Rightarrow> (errno + bool) \<times> 'w state" where
  "sys_entry_is_dir os it entry_name = syscall (os_entry_is_dir os it entry_name) (EntryIsDir it entry_name)"

definition sys_scandir_close :: "'w os \<Rightarrow> nat \<Rightarrow> 'w state \<Rightarrow> 'w state" where
  "sys_scandir_close os it s = s\<lparr>world := os_scandir_close os it (world s), trace := trace s @ [ScandirClose it]\<rparr>"

text \<open>\<^verbatim>\<open>close_quietly\<close>: the descriptor is closed and an \<^verbatim>\<open>OSError\<close> of the close is dropped.\<close>

definition close_quietly :: "'w os \<Rightarrow> fd \<Rightarrow> 'w state \<Rightarrow> 'w state" where
  "close_quietly os f s = snd (syscall (os_close os f) (Close f) s)"

subsection \<open>The two contexts\<close>

record ParentContext =
  p_name :: bytes
  p_fd :: fd
  p_attempted_chmod :: bool

record ChildContext =
  c_name :: bytes
  c_is_dir :: bool
  c_attempted_chmod :: bool

subsection \<open>Opening and deleting with one permission repair\<close>

text \<open>
  \<^verbatim>\<open>open_with_chmod\<close>. The first argument counts the iterations that
  \<^verbatim>\<open>for _attempt in range(0, 2)\<close> has left. An open that succeeds leaves the loop;
  a \<^verbatim>\<open>PermissionError\<close> with the child's flag set, and every other error, is
  raised; otherwise the flag is set, the child is made owner-writable, and the loop
  goes on. An error of \<^verbatim>\<open>lstat\<close> or \<^verbatim>\<open>chmod\<close> is logged and the error of the
  open is raised.
\<close>

fun open_with_chmod_loop ::
  "nat \<Rightarrow> 'w os \<Rightarrow> ParentContext \<Rightarrow> ChildContext \<Rightarrow> 'w state \<Rightarrow> (exn + fd) \<times> ChildContext \<times> 'w state"
where
  "open_with_chmod_loop 0 os parent child s = (Inl UnboundLocalError, child, s)"
| "open_with_chmod_loop (Suc n) os parent child s =
     (case sys_open os (c_name child) (Some (p_fd parent)) s of
        (Inr dir_fd, s1) \<Rightarrow> (Inr dir_fd, child, s1)
      | (Inl e, s1) \<Rightarrow>
          if is_PermissionError e then
            if c_attempted_chmod child then (Inl (OSError e), child, s1)
            else
              (case sys_lstat os (c_name child) (p_fd parent) s1 of
                 (Inl chmod_e, s2) \<Rightarrow>
                   (Inl (OSError e), child\<lparr>c_attempted_chmod := True\<rparr>,
                    log_error ''Failed to make writable'' (p_name parent) (c_name child) chmod_e s2)
               | (Inr st_mode, s2) \<Rightarrow>
                   (case sys_chmod os (c_name child) (S_IMODE st_mode OR S_IWUSR) (p_fd parent) s2 of
                      (Inl chmod_e, s3) \<Rightarrow>
                        (Inl (OSError e), child\<lparr>c_attempted_chmod := True\<rparr>,
                         log_error ''Failed to make writable'' (p_name parent) (c_name child) chmod_e s3)
                    | (Inr u, s3) \<Rightarrow>
                        open_with_chmod_loop n os parent (child\<lparr>c_attempted_chmod := True\<rparr>) s3))
          else (Inl (OSError e), child, s1))"

definition open_with_chmod ::
  "'w os \<Rightarrow> ParentContext \<Rightarrow> ChildContext \<Rightarrow> 'w state \<Rightarrow> (exn + fd) \<times> ChildContext \<times> 'w state"
where
  "open_with_chmod os parent child s = open_with_chmod_loop (Suc (Suc 0)) os parent child s"

definition delete_single ::
  "'w os \<Rightarrow> ParentContext \<Rightarrow> ChildContext \<Rightarrow> 'w state \<Rightarrow> (errno + unit) \<times> 'w state"
where
  "delete_single os parent child s =
     (if c_is_dir child then sys_rmdir os (c_name child) (p_fd parent) s
      else sys_unlink os (c_name child) (p_fd parent) s)"

text \<open>
  \<^verbatim>\<open>delete_single_with_chmod\<close>, with the same loop. A deletion that succeeds logs
  the path when verbose and leaves the loop; a \<^verbatim>\<open>FileNotFoundError\<close> leaves the
  loop under \<open>force\<close> and is raised otherwise; a \<^verbatim>\<open>PermissionError\<close> sets the
  parent's flag and makes the parent owner-writable through its descriptor. A loop that
  runs out returns normally.
\<close>

fun delete_single_with_chmod_loop ::
  "nat \<Rightarrow> 'w os \<Rightarrow> ParentContext \<Rightarrow> ChildContext \<Rightarrow> bool \<Rightarrow> bool \<Rightarrow> 'w state
   \<Rightarrow> (errno + unit) \<times> ParentContext \<times> 'w state"
where
  "delete_single_with_chmod_loop 0 os parent child force verbose s = (Inr (), parent, s)"
| "delete_single_with_chmod_loop (Suc n) os parent child force verbose s =
     (case delete_single os parent child s of
        (Inr u, s1) \<Rightarrow>
          (Inr (), parent,
           if verbose then log_path (printable_path (p_name parent) (c_name child)) s1 else s1)
      | (Inl e, s1) \<Rightarrow>
          if is_FileNotFoundError e then
            (if force then (Inr (), parent, s1) else (Inl e, parent, s1))
          else if is_PermissionError e then
            if p_attempted_chmod parent then (Inl e, parent, s1)
            else
              (case sys_fstat os (p_fd parent) s1 of
                 (Inl chmod_e, s2) \<Rightarrow>
                   (Inl e, parent\<lparr>p_attempted_chmod := True\<rparr>,
                    log_error ''Failed to make writable'' (p_name parent) [] chmod_e s2)
               | (Inr st_mode, s2) \<Rightarrow>
                   (case sys_fchmod os (p_fd parent) (S_IMODE st_mode OR S_IWUSR) s2 of
                      (Inl chmod_e, s3) \<Rightarrow>
                        (Inl e, parent\<lparr>p_attempted_chmod := True\<rparr>,
                         log_error ''Failed to make writable'' (p_name parent) [] chmod_e s3)
                    | (Inr u, s3) \<Rightarrow>
                        delete_single_with_chmod_loop n os (parent\<lparr>p_attempted_chmod := True\<rparr>)
                          child force verbose s3))
          else (Inl e, parent, s1))"

definition delete_single_with_chmod ::
  "'w os \<Rightarrow> ParentContext \<Rightarrow> ChildContext \<Rightarrow> bool \<Rightarrow> bool \<Rightarrow> 'w state
   \<Rightarrow> (errno + unit) \<times> ParentContext \<times> 'w state"
where
  "delete_single_with_chmod os parent child force verbose s =
     delete_single_with_chmod_loop (Suc (Suc 0)) os parent child force verbose s"

subsection \<open>The traversal\<close>

text \<open>
  \<^verbatim>\<open>delete_path\<close> and the loop over the entries of the directory it has opened.
  The Python recursion has no bound of its own, and a directory that another process
  keeps filling is listed forever, so both functions take fuel: it is spent on each
  entry listed and on each directory entered, and \<open>None\<close> is the run that needs more.
  A call that deletes directly, or fails before it lists a directory, needs none.

  The result of \<open>delete_path\<close> is the boolean the Python returns, or the exception
  that leaves it (every \<^verbatim>\<open>OSError\<close> is caught inside), with both context objects as
  the call leaves them. \<open>scan_loop\<close> is the \<^verbatim>\<open>for entry in dir\<close> loop: it returns
  the accumulated \<open>success\<close> when the listing ends, or the exception raised by the
  listing, by \<^verbatim>\<open>entry.is_dir\<close> or by the recursive call.
\<close>

fun delete_path ::
  "nat \<Rightarrow> 'w os \<Rightarrow> ParentContext \<Rightarrow> ChildContext \<Rightarrow> bool \<Rightarrow> bool \<Rightarrow> bool \<Rightarrow> 'w state
   \<Rightarrow> ((exn + bool) \<times> ParentContext \<times> ChildContext \<times> 'w state) option"
and scan_loop ::
  "nat \<Rightarrow> 'w os \<Rightarrow> bytes \<Rightarrow> fd \<Rightarrow> nat \<Rightarrow> ChildContext \<Rightarrow> bool \<Rightarrow> bool \<Rightarrow> bool \<Rightarrow> 'w state
   \<Rightarrow> ((exn + bool) \<times> ChildContext \<times> 'w state) option"
where
  "delete_path fuel os parent child force recursive verbose s =
     (case delete_single_with_chmod os parent child force verbose s of
        (Inr u, parent1, s1) \<Rightarrow> Some (Inr True, parent1, child, s1)
      | (Inl e, parent1, s1) \<Rightarrow>
          if \<not> recursive \<or> \<not> c_is_dir child then
            Some (Inr False, parent1, child,
                  log_error ''Failed to delete'' (p_name parent) (c_name child) e s1)
          else
            (case open_with_chmod os parent1 child s1 of
               (Inl x, child1, s2) \<Rightarrow>
                 (case x of
                    OSError e2 \<Rightarrow>
                      if is_FileNotFoundError e2 \<and> force then Some (Inr True, parent1, child1, s2)
                      else Some (Inr False, parent1, child1,
                                 log_error ''Failed to open'' (p_name parent) (c_name child) e2 s2)
                  | UnboundLocalError \<Rightarrow> Some (Inl x, parent1, child1, s2)
                  | AssertionError \<Rightarrow> Some (Inl x, parent1, child1, s2))
             | (Inr dir_fd, child1, s2) \<Rightarrow>
                 (case sys_scandir os dir_fd s2 of
                    (Inl e3, s3) \<Rightarrow>
                      Some (Inr False, parent1, child1,
                            close_quietly os dir_fd
                              (log_error ''Failed to read'' (p_name parent) (c_name child) e3 s3))
                  | (Inr it, s3) \<Rightarrow>
                      (case fuel of
                         0 \<Rightarrow> None
                       | Suc k \<Rightarrow>
                           (case scan_loop k os (path_join (p_name parent) (c_name child)) dir_fd it
                                   child1 force verbose True s3 of
                              None \<Rightarrow> None
                            | Some (Inl x, child2, s4) \<Rightarrow>
                                (case x of
                                   OSError e4 \<Rightarrow>
                                     Some (Inr False, parent1, child2,
                                           close_quietly os dir_fd
                                             (log_error ''Failed to read'' (p_name parent) (c_name child) e4
                                                (sys_scandir_close os it s4)))
                                 | UnboundLocalError \<Rightarrow>
                                     Some (Inl x, parent1, child2,
                                           close_quietly os dir_fd (sys_scandir_close os it s4))
                                 | AssertionError \<Rightarrow>
                                     Some (Inl x, parent1, child2,
                                           close_quietly os dir_fd (sys_scandir_close os it s4)))
                            | Some (Inr success, child2, s4) \<Rightarrow>
                                (case delete_single_with_chmod os parent1 child2 force verbose
                                        (close_quietly os dir_fd (sys_scandir_close os it s4)) of
                                   (Inl e5, parent2, s5) \<Rightarrow>
                                     Some (Inr False, parent2, child2,
                                           log_error ''Failed to delete'' (p_name parent) (c_name child) e5 s5)
                                 | (Inr u, parent2, s5) \<Rightarrow>
                                     Some (Inr success, parent2, child2, s5)))))))"
| "scan_loop fuel os dir_name dir_fd it child force verbose success s =
     (case sys_scandir_next os it s of
        (Inl e, s1) \<Rightarrow> Some (Inl (OSError e), child, s1)
      | (Inr None, s1) \<Rightarrow> Some (Inr success, child, s1)
      | (Inr (Some entry_name), s1) \<Rightarrow>
          (case sys_entry_is_dir os it entry_name s1 of
             (Inl e, s2) \<Rightarrow> Some (Inl (OSError e), child, s2)
           | (Inr entry_is_dir, s2) \<Rightarrow>
               (case fuel of
                  0 \<Rightarrow> None
                | Suc k \<Rightarrow>
                    (case delete_path k os
                            \<lparr>p_name = dir_name, p_fd = dir_fd, p_attempted_chmod = c_attempted_chmod child\<rparr>
                            \<lparr>c_name = fsencode entry_name, c_is_dir = entry_is_dir, c_attempted_chmod = False\<rparr>
                            force entry_is_dir verbose s2 of
                       None \<Rightarrow> None
                     | Some (Inl x, dir_context, entry_context, s3) \<Rightarrow> Some (Inl x, child, s3)
                     | Some (Inr r, dir_context, entry_context, s3) \<Rightarrow>
                         scan_loop k os dir_name dir_fd it
                           (child\<lparr>c_attempted_chmod := c_attempted_chmod child \<or> p_attempted_chmod dir_context\<rparr>)
                           force verbose (success \<and> r) s3))))"

declare delete_path.simps [simp del] scan_loop.simps [simp del]

subsection \<open>The command\<close>

text \<open>
  The loop of \<^verbatim>\<open>main\<close> over \<^verbatim>\<open>args.path\<close>. Each path is resolved with
  \<^verbatim>\<open>os.path.realpath(path, strict=True)\<close>, split, and its parent opened; a
  \<^verbatim>\<open>FileNotFoundError\<close> of these skips the path under \<open>force\<close>, any other
  \<^verbatim>\<open>OSError\<close> is logged with the path as it then is (resolved once
  \<^verbatim>\<open>realpath\<close> has returned) and fails the run. The leaf is classified by one
  \<^verbatim>\<open>lstat\<close>, whose every error is logged and fails the run, and handed to
  \<open>delete_path\<close>. The parent's descriptor is closed on each way out. The result is
  \<open>success\<close> (the script exits with status 1 when it is false), or the exception that
  ends the script.
\<close>

fun main_loop ::
  "nat \<Rightarrow> 'w os \<Rightarrow> bool \<Rightarrow> bool \<Rightarrow> bool \<Rightarrow> bytes list \<Rightarrow> bool \<Rightarrow> 'w state
   \<Rightarrow> ((exn + bool) \<times> 'w state) option"
where
  "main_loop fuel os force recursive verbose [] success s = Some (Inr success, s)"
| "main_loop fuel os force recursive verbose (path # paths) success s =
     (case sys_realpath os path s of
        (Inl e, s1) \<Rightarrow>
          if is_FileNotFoundError e \<and> force then
            main_loop fuel os force recursive verbose paths success s1
          else
            main_loop fuel os force recursive verbose paths False
              (log_error ''Failed to find'' path [] e s1)
      | (Inr rpath, s1) \<Rightarrow>
          (case path_split rpath of
             (parent_name, leaf) \<Rightarrow>
               if parent_name = [] then Some (Inl AssertionError, s1)
               else
                 (case sys_open os parent_name None s1 of
                    (Inl e, s2) \<Rightarrow>
                      if is_FileNotFoundError e \<and> force then
                        main_loop fuel os force recursive verbose paths success s2
                      else
                        main_loop fuel os force recursive verbose paths False
                          (log_error ''Failed to find'' rpath [] e s2)
                  | (Inr parent_fd, s2) \<Rightarrow>
                      (case sys_lstat os (if leaf = [] then ''.'' else leaf) parent_fd s2 of
                         (Inl e, s3) \<Rightarrow>
                           main_loop fuel os force recursive verbose paths False
                             (close_quietly os parent_fd
                                (log_error ''Failed to stat'' parent_name
                                   (if leaf = [] then ''.'' else leaf) e s3))
                       | (Inr st_mode, s3) \<Rightarrow>
                           (case delete_path fuel os
                                   \<lparr>p_name = parent_name, p_fd = parent_fd, p_attempted_chmod = False\<rparr>
                                   \<lparr>c_name = (if leaf = [] then ''.'' else leaf),
                                    c_is_dir = S_ISDIR st_mode, c_attempted_chmod = False\<rparr>
                                   force recursive verbose s3 of
                              None \<Rightarrow> None
                            | Some (Inl x, parent, child, s4) \<Rightarrow>
                                Some (Inl x, close_quietly os parent_fd s4)
                            | Some (Inr r, parent, child, s4) \<Rightarrow>
                                main_loop fuel os force recursive verbose paths (success \<and> r)
                                  (close_quietly os parent_fd s4))))))"

definition main ::
  "nat \<Rightarrow> 'w os \<Rightarrow> bool \<Rightarrow> bool \<Rightarrow> bool \<Rightarrow> bytes list \<Rightarrow> 'w state \<Rightarrow> ((exn + bool) \<times> 'w state) option"
where
  "main fuel os force recursive verbose paths s = main_loop fuel os force recursive verbose paths True s"

subsection \<open>A file system to run the script on\<close>

text \<open>
  One operating system for the record above: a POSIX file system seen by one
  unprivileged caller, small enough to evaluate. An inode is a regular file, a
  directory (its entries in listing order) or a symbolic link, with its permission bits
  and whether the caller owns it; the caller's access is decided by the owner bits of an
  inode it owns and by the bits for others elsewhere. Inode 0 is the root and the
  working directory. A descriptor remembers the chain of directory entries it was
  opened through, innermost first, so that a name can be resolved against it. An
  iterator is the listing taken when \<^verbatim>\<open>scandir\<close> was called and the position in it.
\<close>

datatype kind = Reg | Dir "(string \<times> nat) list" | Lnk bytes

record inode =
  i_kind :: kind
  i_mode :: nat
  i_owned :: bool

record fs =
  inodes :: "(nat \<times> inode) list"
  fdtab :: "(fd \<times> (string \<times> nat) list) list"
  itertab :: "(nat \<times> (string \<times> bool) list \<times> nat) list"

definition may :: "nat \<Rightarrow> inode \<Rightarrow> bool" where
  "may perm nd = (i_mode nd AND (if i_owned nd then perm * 64 else perm) \<noteq> 0)"

definition st_mode_of :: "inode \<Rightarrow> nat" where
  "st_mode_of nd =
     (case i_kind nd of Reg \<Rightarrow> 32768 | Dir es \<Rightarrow> 16384 | Lnk t \<Rightarrow> 40960) OR i_mode nd"

definition is_Dir :: "kind \<Rightarrow> bool" where
  "is_Dir k = (case k of Dir es \<Rightarrow> True | Reg \<Rightarrow> False | Lnk t \<Rightarrow> False)"

definition top :: "(string \<times> nat) list \<Rightarrow> nat" where
  "top stk = (case stk of [] \<Rightarrow> 0 | (n, i) # rest \<Rightarrow> i)"

text \<open>One name in one directory: the directory must exist, be a directory and be searchable.\<close>

definition lookup :: "fs \<Rightarrow> nat \<Rightarrow> string \<Rightarrow> errno + nat" where
  "lookup f d nm =
     (case map_of (inodes f) d of
        None \<Rightarrow> Inl ENOENT
      | Some dn \<Rightarrow>
          (case i_kind dn of
             Dir es \<Rightarrow>
               if may 1 dn then
                 (if nm = ''.'' then Inr d
                  else (case map_of es nm of None \<Rightarrow> Inl ENOENT | Some i \<Rightarrow> Inr i))
               else Inl EACCES
           | Reg \<Rightarrow> Inl ENOTDIR
           | Lnk t \<Rightarrow> Inl ENOTDIR))"

fun split_sep :: "string \<Rightarrow> string list" where
  "split_sep [] = [[]]"
| "split_sep (c # cs) =
     (if c = CHR ''/'' then [] # split_sep cs
      else (case split_sep cs of [] \<Rightarrow> [[c]] | x # xs \<Rightarrow> (c # x) # xs))"

text \<open>
  Path resolution, following every symbolic link (at most as many as the first
  argument): the chain of entries reached from the chain \<open>stk\<close> by the components.
\<close>

fun walk :: "nat \<Rightarrow> fs \<Rightarrow> (string \<times> nat) list \<Rightarrow> string list \<Rightarrow> errno + (string \<times> nat) list" where
  "walk n f stk [] = Inr stk"
| "walk n f stk (c # cs) =
     (if c = [] \<or> c = ''.'' then walk n f stk cs
      else if c = ''..'' then walk n f (tl stk) cs
      else
        (case lookup f (top stk) c of
           Inl e \<Rightarrow> Inl e
         | Inr i \<Rightarrow>
             (case map_of (inodes f) i of
                None \<Rightarrow> Inl ENOENT
              | Some nd \<Rightarrow>
                  (case i_kind nd of
                     Lnk t \<Rightarrow>
                       (case n of
                          0 \<Rightarrow> Inl ELOOP
                        | Suc m \<Rightarrow>
                            walk m f (if t \<noteq> [] \<and> hd t = CHR ''/'' then [] else stk) (split_sep t @ cs))
                   | Reg \<Rightarrow> walk n f ((c, i) # stk) cs
                   | Dir es \<Rightarrow> walk n f ((c, i) # stk) cs))))"

definition path_of :: "(string \<times> nat) list \<Rightarrow> bytes" where
  "path_of stk = (if stk = [] then ''/'' else concat (map (\<lambda>(n, i). CHR ''/'' # n) (rev stk)))"

definition fresh_fd :: "fs \<Rightarrow> fd" where
  "fresh_fd f =
     (case filter (\<lambda>n. int n \<notin> fst ` set (fdtab f)) [3 ..< 4 + length (fdtab f)] of
        [] \<Rightarrow> 3
      | n # ns \<Rightarrow> int n)"

definition fresh_iter :: "fs \<Rightarrow> nat" where
  "fresh_iter f = length (itertab f)"

definition set_inode :: "nat \<Rightarrow> inode \<Rightarrow> fs \<Rightarrow> fs" where
  "set_inode i nd f = f\<lparr>inodes := AList.update i nd (inodes f)\<rparr>"

definition open_stack :: "(string \<times> nat) list \<Rightarrow> fs \<Rightarrow> (errno + fd) \<times> fs" where
  "open_stack stk f =
     (case map_of (inodes f) (top stk) of
        None \<Rightarrow> (Inl ENOENT, f)
      | Some nd \<Rightarrow>
          if may 4 nd then
            (Inr (fresh_fd f), f\<lparr>fdtab := (fresh_fd f, stk) # fdtab f\<rparr>)
          else (Inl EACCES, f))"

definition fs_realpath :: "bytes \<Rightarrow> fs \<Rightarrow> (errno + bytes) \<times> fs" where
  "fs_realpath path f =
     (case walk 40 f [] (split_sep path) of
        Inl e \<Rightarrow> (Inl e, f)
      | Inr stk \<Rightarrow> (Inr (path_of stk), f))"

definition fs_open :: "bytes \<Rightarrow> fd option \<Rightarrow> fs \<Rightarrow> (errno + fd) \<times> fs" where
  "fs_open path dir_fd f =
     (case dir_fd of
        None \<Rightarrow>
          (case walk 40 f [] (split_sep path) of
             Inl e \<Rightarrow> (Inl e, f)
           | Inr stk \<Rightarrow> open_stack stk f)
      | Some d \<Rightarrow>
          (case map_of (fdtab f) d of
             None \<Rightarrow> (Inl EBADF, f)
           | Some stk0 \<Rightarrow>
               (case walk 40 f stk0 (split_sep path) of
                  Inl e \<Rightarrow> (Inl e, f)
                | Inr stk \<Rightarrow> open_stack stk f)))"

definition fs_close :: "fd \<Rightarrow> fs \<Rightarrow> (errno + unit) \<times> fs" where
  "fs_close d f =
     (case map_of (fdtab f) d of
        None \<Rightarrow> (Inl EBADF, f)
      | Some stk \<Rightarrow> (Inr (), f\<lparr>fdtab := AList.delete d (fdtab f)\<rparr>))"

definition fs_lstat :: "bytes \<Rightarrow> fd \<Rightarrow> fs \<Rightarrow> (errno + nat) \<times> fs" where
  "fs_lstat nm d f =
     (case map_of (fdtab f) d of
        None \<Rightarrow> (Inl EBADF, f)
      | Some stk \<Rightarrow>
          (case lookup f (top stk) nm of
             Inl e \<Rightarrow> (Inl e, f)
           | Inr i \<Rightarrow>
               (case map_of (inodes f) i of
                  None \<Rightarrow> (Inl ENOENT, f)
                | Some nd \<Rightarrow> (Inr (st_mode_of nd), f))))"

definition chmod_inode :: "nat \<Rightarrow> nat \<Rightarrow> fs \<Rightarrow> (errno + unit) \<times> fs" where
  "chmod_inode i mode f =
     (case map_of (inodes f) i of
        None \<Rightarrow> (Inl ENOENT, f)
      | Some nd \<Rightarrow>
          if i_owned nd then (Inr (), set_inode i (nd\<lparr>i_mode := mode\<rparr>) f)
          else (Inl EPERM, f))"

definition fs_chmod :: "bytes \<Rightarrow> nat \<Rightarrow> fd \<Rightarrow> fs \<Rightarrow> (errno + unit) \<times> fs" where
  "fs_chmod nm mode d f =
     (case map_of (fdtab f) d of
        None \<Rightarrow> (Inl EBADF, f)
      | Some stk0 \<Rightarrow>
          (case walk 40 f stk0 (split_sep nm) of
             Inl e \<Rightarrow> (Inl e, f)
           | Inr stk \<Rightarrow> chmod_inode (top stk) mode f))"

definition fs_fstat :: "fd \<Rightarrow> fs \<Rightarrow> (errno + nat) \<times> fs" where
  "fs_fstat d f =
     (case map_of (fdtab f) d of
        None \<Rightarrow> (Inl EBADF, f)
      | Some stk \<Rightarrow>
          (case map_of (inodes f) (top stk) of
             None \<Rightarrow> (Inl ENOENT, f)
           | Some nd \<Rightarrow> (Inr (st_mode_of nd), f)))"

definition fs_fchmod :: "fd \<Rightarrow> nat \<Rightarrow> fs \<Rightarrow> (errno + unit) \<times> fs" where
  "fs_fchmod d mode f =
     (case map_of (fdtab f) d of
        None \<Rightarrow> (Inl EBADF, f)
      | Some stk \<Rightarrow> chmod_inode (top stk) mode f)"

text \<open>
  Removing the entry \<open>nm\<close> of the directory behind a descriptor. The checks come in
  the kernel's order: the entry exists, the directory is writable, the entry has the
  kind the call removes, and a directory to remove is empty.
\<close>

definition remove_entry :: "bool \<Rightarrow> bytes \<Rightarrow> fd \<Rightarrow> fs \<Rightarrow> (errno + unit) \<times> fs" where
  "remove_entry want_dir nm d f =
     (case map_of (fdtab f) d of
        None \<Rightarrow> (Inl EBADF, f)
      | Some stk \<Rightarrow>
          if nm = ''.'' then (Inl EINVAL, f)
          else
            (case lookup f (top stk) nm of
               Inl e \<Rightarrow> (Inl e, f)
             | Inr i \<Rightarrow>
                 (case (map_of (inodes f) (top stk), map_of (inodes f) i) of
                    (Some dn, Some nd) \<Rightarrow>
                      (case i_kind dn of
                         Dir es \<Rightarrow>
                           if may 2 dn then
                             (if want_dir then
                                (case i_kind nd of
                                   Dir sub \<Rightarrow>
                                     if sub = [] then
                                       (Inr (), set_inode (top stk) (dn\<lparr>i_kind := Dir (AList.delete nm es)\<rparr>) f)
                                     else (Inl ENOTEMPTY, f)
                                 | Reg \<Rightarrow> (Inl ENOTDIR, f)
                                 | Lnk t \<Rightarrow> (Inl ENOTDIR, f))
                              else
                                (case i_kind nd of
                                   Dir sub \<Rightarrow> (Inl EISDIR, f)
                                 | Reg \<Rightarrow>
                                     (Inr (), set_inode (top stk) (dn\<lparr>i_kind := Dir (AList.delete nm es)\<rparr>) f)
                                 | Lnk t \<Rightarrow>
                                     (Inr (), set_inode (top stk) (dn\<lparr>i_kind := Dir (AList.delete nm es)\<rparr>) f)))
                           else (Inl EACCES, f)
                       | Reg \<Rightarrow> (Inl ENOTDIR, f)
                       | Lnk t \<Rightarrow> (Inl ENOTDIR, f))
                  | (Some dn, None) \<Rightarrow> (Inl ENOENT, f)
                  | (None, b) \<Rightarrow> (Inl ENOENT, f))))"

definition fs_scandir :: "fd \<Rightarrow> fs \<Rightarrow> (errno + nat) \<times> fs" where
  "fs_scandir d f =
     (case map_of (fdtab f) d of
        None \<Rightarrow> (Inl EBADF, f)
      | Some stk \<Rightarrow>
          (case map_of (inodes f) (top stk) of
             None \<Rightarrow> (Inl ENOENT, f)
           | Some dn \<Rightarrow>
               (case i_kind dn of
                  Dir es \<Rightarrow>
                    (Inr (fresh_iter f),
                     f\<lparr>itertab :=
                         (fresh_iter f,
                          map (\<lambda>(n, i). (n, case map_of (inodes f) i of
                                                None \<Rightarrow> False
                                              | Some nd \<Rightarrow> is_Dir (i_kind nd))) es,
                          0) # itertab f\<rparr>)
                | Reg \<Rightarrow> (Inl ENOTDIR, f)
                | Lnk t \<Rightarrow> (Inl ENOTDIR, f))))"

definition fs_scandir_next :: "nat \<Rightarrow> fs \<Rightarrow> (errno + string option) \<times> fs" where
  "fs_scandir_next it f =
     (case map_of (itertab f) it of
        None \<Rightarrow> (Inl EBADF, f)
      | Some (es, k) \<Rightarrow>
          if k < length es then
            (Inr (Some (fst (es ! k))), f\<lparr>itertab := AList.update it (es, Suc k) (itertab f)\<rparr>)
          else (Inr None, f))"

definition fs_entry_is_dir :: "nat \<Rightarrow> string \<Rightarrow> fs \<Rightarrow> (errno + bool) \<times> fs" where
  "fs_entry_is_dir it nm f =
     (case map_of (itertab f) it of
        None \<Rightarrow> (Inl EBADF, f)
      | Some (es, k) \<Rightarrow>
          (case map_of es nm of None \<Rightarrow> (Inr False, f) | Some b \<Rightarrow> (Inr b, f)))"

definition fs_scandir_close :: "nat \<Rightarrow> fs \<Rightarrow> fs" where
  "fs_scandir_close it f = f\<lparr>itertab := AList.update it ([], 0) (itertab f)\<rparr>"

definition posix :: "fs os" where
  "posix =
     \<lparr>os_realpath = fs_realpath, os_open = fs_open, os_close = fs_close, os_lstat = fs_lstat,
      os_chmod = fs_chmod, os_fstat = fs_fstat, os_fchmod = fs_fchmod,
      os_rmdir = remove_entry True, os_unlink = remove_entry False,
      os_scandir = fs_scandir, os_scandir_next = fs_scandir_next,
      os_entry_is_dir = fs_entry_is_dir, os_scandir_close = fs_scandir_close\<rparr>"

definition init :: "'w \<Rightarrow> 'w state" where
  "init w = \<lparr>world = w, trace = [], stderr = []\<rparr>"

subsection \<open>Example worlds\<close>

text \<open>
  A small tree for the concrete runs below. The root holds the directory \<open>d\<close> with two
  files, a symbolic link \<open>l\<close> to \<open>/d\<close>, the empty directory \<open>e\<close>, the directory
  \<open>ro\<close> (mode 0555, one file), the directory \<open>locked\<close> (mode 0000), and two
  directories of another user: \<open>foreign\<close> (mode 0555, two files) and \<open>vault\<close> (mode
  0700), the directory \<open>m\<close> whose one entry \<open>k\<close> is a symbolic link to \<open>/d\<close>, and
  the directory \<open>mix\<close> holding another user's directory \<open>sub\<close> (mode 0555, one file)
  and the caller's file \<open>u\<close>.
  \<open>ex_at path\<close> is the state in which descriptor 3 is open on \<open>path\<close>.
\<close>

definition ex_fs :: fs where
  "ex_fs =
     \<lparr>inodes =
        [(0, \<lparr>i_kind = Dir [(''d'', 1), (''l'', 4), (''e'', 5), (''ro'', 6), (''locked'', 8),
                            (''foreign'', 9), (''vault'', 11), (''m'', 12), (''mix'', 14)],
              i_mode = 493, i_owned = True\<rparr>),
         (1, \<lparr>i_kind = Dir [(''f'', 2), (''g'', 3)], i_mode = 493, i_owned = True\<rparr>),
         (2, \<lparr>i_kind = Reg, i_mode = 420, i_owned = True\<rparr>),
         (3, \<lparr>i_kind = Reg, i_mode = 420, i_owned = True\<rparr>),
         (4, \<lparr>i_kind = Lnk ''/d'', i_mode = 511, i_owned = True\<rparr>),
         (5, \<lparr>i_kind = Dir [], i_mode = 493, i_owned = True\<rparr>),
         (6, \<lparr>i_kind = Dir [(''x'', 7)], i_mode = 365, i_owned = True\<rparr>),
         (7, \<lparr>i_kind = Reg, i_mode = 292, i_owned = True\<rparr>),
         (8, \<lparr>i_kind = Dir [], i_mode = 0, i_owned = True\<rparr>),
         (9, \<lparr>i_kind = Dir [(''y'', 10), (''z'', 18)], i_mode = 365, i_owned = False\<rparr>),
         (10, \<lparr>i_kind = Reg, i_mode = 420, i_owned = False\<rparr>),
         (11, \<lparr>i_kind = Dir [], i_mode = 448, i_owned = False\<rparr>),
         (12, \<lparr>i_kind = Dir [(''k'', 13)], i_mode = 493, i_owned = True\<rparr>),
         (13, \<lparr>i_kind = Lnk ''/d'', i_mode = 511, i_owned = True\<rparr>),
         (14, \<lparr>i_kind = Dir [(''sub'', 15), (''u'', 17)], i_mode = 493, i_owned = True\<rparr>),
         (15, \<lparr>i_kind = Dir [(''t'', 16)], i_mode = 365, i_owned = False\<rparr>),
         (16, \<lparr>i_kind = Reg, i_mode = 420, i_owned = False\<rparr>),
         (17, \<lparr>i_kind = Reg, i_mode = 420, i_owned = True\<rparr>),
         (18, \<lparr>i_kind = Reg, i_mode = 420, i_owned = False\<rparr>)],
      fdtab = [], itertab = []\<rparr>"

definition ex_at :: "bytes \<Rightarrow> fs state" where
  "ex_at path = snd (sys_open posix path None (init ex_fs))"

definition ex_parent :: "bytes \<Rightarrow> ParentContext" where
  "ex_parent nm = \<lparr>p_name = nm, p_fd = 3, p_attempted_chmod = False\<rparr>"

definition ex_child :: "bytes \<Rightarrow> bool \<Rightarrow> ChildContext" where
  "ex_child nm d = \<lparr>c_name = nm, c_is_dir = d, c_attempted_chmod = False\<rparr>"

text \<open>The states a repaired deletion of \<open>/ro/x\<close> passes through.\<close>

definition ex_del1 :: "fs state" where
  "ex_del1 = snd (delete_single posix (ex_parent ''/ro'') (ex_child ''x'' False) (ex_at ''/ro''))"

definition ex_del2 :: "fs state" where
  "ex_del2 = snd (sys_fstat posix 3 ex_del1)"

definition ex_del3 :: "fs state" where
  "ex_del3 = snd (sys_fchmod posix 3 493 ex_del2)"

definition ex_del4 :: "fs state" where
  "ex_del4 = snd (delete_single posix (ex_parent ''/ro'') (ex_child ''x'' False) ex_del3)"










text \<open>The states the removal of the empty directory \<open>/e\<close> passes through.\<close>

definition ex_e1 :: "fs state" where
  "ex_e1 = snd (sys_realpath posix ''/e'' (init ex_fs))"

definition ex_e2 :: "fs state" where
  "ex_e2 = snd (sys_open posix ''/'' None ex_e1)"

definition ex_e3 :: "fs state" where
  "ex_e3 = snd (sys_lstat posix ''e'' 3 ex_e2)"

definition ex_e4 :: "fs state" where
  "ex_e4 = snd (sys_rmdir posix ''e'' 3 ex_e3)"

text \<open>The states the resolution of the link \<open>/l\<close> passes through.\<close>

definition ex_l1 :: "fs state" where
  "ex_l1 = snd (sys_realpath posix ''/l'' (init ex_fs))"

definition ex_l2 :: "fs state" where
  "ex_l2 = snd (sys_open posix ''/'' None ex_l1)"

definition ex_l3 :: "fs state" where
  "ex_l3 = snd (sys_lstat posix ''d'' 3 ex_l2)"

subsection \<open>Notions the statements below use\<close>

text \<open>
  Two file systems that differ at most in the permission bits of inode \<open>j\<close>: the same
  descriptors and iterators, the same kind (and so the same entries or link target) for
  every inode, and every inode but \<open>j\<close> the same altogether.
\<close>

definition only_mode_of :: "nat \<Rightarrow> fs \<Rightarrow> fs \<Rightarrow> bool" where
  "only_mode_of j f f' =
     (fdtab f' = fdtab f \<and> itertab f' = itertab f \<and>
      (\<forall>i. map_option i_kind (map_of (inodes f') i) = map_option i_kind (map_of (inodes f) i)) \<and>
      (\<forall>i. i \<noteq> j \<longrightarrow> map_of (inodes f') i = map_of (inodes f) i))"

text \<open>The state after the refused \<^verbatim>\<open>rmdir\<close> of the non-empty directory \<open>/d\<close>.\<close>

definition ex_d1 :: "fs state" where
  "ex_d1 = snd (sys_rmdir posix ''d'' 3 (ex_at ''/''))"

text \<open>
  The calls a run makes: \<open>steps s T s'\<close> when the state \<open>s'\<close> has recorded the
  calls \<open>T\<close>, in order, after those of \<open>s\<close>.
\<close>

definition steps :: "'w state \<Rightarrow> event list \<Rightarrow> 'w state \<Rightarrow> bool" where
  "steps s T s' = (trace s' = trace s @ T)"

text \<open>
  The descriptors a sequence of calls leaves open, from those open before it: a
  successful \<^verbatim>\<open>os.open\<close> adds its descriptor, \<^verbatim>\<open>os.close\<close> takes one
  occurrence away, and the close of a descriptor that is not open (never opened, or
  closed already) is \<open>None\<close>.
\<close>

fun handle_step :: "event \<Rightarrow> fd list \<Rightarrow> fd list option" where
  "handle_step (Open p d (Inr f)) H = Some (f # H)"
| "handle_step (Close f r) H = (if f \<in> set H then Some (remove1 f H) else None)"
| "handle_step e H = Some H"

primrec track :: "event list \<Rightarrow> fd list \<Rightarrow> fd list option" where
  "track [] H = Some H"
| "track (e # es) H = (case handle_step e H of None \<Rightarrow> None | Some H' \<Rightarrow> track es H')"

text \<open>
  The calls that repair a directory through its descriptor, \<^verbatim>\<open>fstat\<close> and
  \<^verbatim>\<open>fchmod\<close> on \<open>x\<close>, counted in a sequence of calls; and whether a sequence
  holds an \<^verbatim>\<open>os.open\<close> that returned the number \<open>x\<close>.
\<close>

fun is_fstat :: "fd \<Rightarrow> event \<Rightarrow> bool" where
  "is_fstat x (Fstat f r) = (f = x)"
| "is_fstat x e = False"

fun is_fchmod :: "fd \<Rightarrow> event \<Rightarrow> bool" where
  "is_fchmod x (Fchmod f m r) = (f = x)"
| "is_fchmod x e = False"

fun opens_fd :: "fd \<Rightarrow> event \<Rightarrow> bool" where
  "opens_fd x (Open p d (Inr f)) = (f = x)"
| "opens_fd x e = False"

definition repairs :: "fd \<Rightarrow> event list \<Rightarrow> nat" where
  "repairs x T = length (filter (is_fstat x) T)"

definition chmods :: "fd \<Rightarrow> event list \<Rightarrow> nat" where
  "chmods x T = length (filter (is_fchmod x) T)"

definition reopened :: "fd \<Rightarrow> event list \<Rightarrow> bool" where
  "reopened x T = list_ex (opens_fd x) T"

text \<open>Calls that open and close nothing.\<close>

definition quiet :: "event list \<Rightarrow> bool" where
  "quiet T = ((\<forall>H. track T H = Some H) \<and> (\<forall>x. \<not> reopened x T))"

text \<open>
  What the calls \<open>T\<close> of one \<open>delete_path\<close> do, between the contexts it was given
  and those it leaves: they close every descriptor they open and no other; the flags
  only rise; and, as long as no open in \<open>T\<close> returns a number again, \<^verbatim>\<open>fstat\<close>
  and \<^verbatim>\<open>fchmod\<close> are called on no descriptor but the parent's and descriptors
  opened in \<open>T\<close>, and on the parent's at most once each, and not at all when the
  parent's flag was set. \<open>loop_ok\<close> is the same for the loop over the entries of the
  directory open as \<open>dir_fd\<close>, whose flag the child's flag carries.
\<close>

definition node_ok :: "ParentContext \<Rightarrow> ParentContext \<Rightarrow> ChildContext \<Rightarrow> ChildContext \<Rightarrow> event list \<Rightarrow> bool" where
  "node_ok parent parent' child child' T =
     ((\<forall>H. track T H = Some H) \<and> p_fd parent' = p_fd parent \<and>
      (c_attempted_chmod child \<longrightarrow> c_attempted_chmod child') \<and>
      (p_attempted_chmod parent \<longrightarrow> p_attempted_chmod parent') \<and>
      (\<forall>x. x \<noteq> p_fd parent \<and> \<not> reopened x T \<longrightarrow> repairs x T = 0 \<and> chmods x T = 0) \<and>
      (\<not> reopened (p_fd parent) T \<longrightarrow>
         repairs (p_fd parent) T + of_bool (p_attempted_chmod parent) \<le> of_bool (p_attempted_chmod parent') \<and>
         chmods (p_fd parent) T + of_bool (p_attempted_chmod parent) \<le> of_bool (p_attempted_chmod parent')))"

definition loop_ok :: "fd \<Rightarrow> ChildContext \<Rightarrow> ChildContext \<Rightarrow> event list \<Rightarrow> bool" where
  "loop_ok dir_fd child child' T =
     ((\<forall>H. track T H = Some H) \<and>
      (c_attempted_chmod child \<longrightarrow> c_attempted_chmod child') \<and>
      (\<forall>x. x \<noteq> dir_fd \<and> \<not> reopened x T \<longrightarrow> repairs x T = 0 \<and> chmods x T = 0) \<and>
      (\<not> reopened dir_fd T \<longrightarrow>
         repairs dir_fd T + of_bool (c_attempted_chmod child) \<le> of_bool (c_attempted_chmod child') \<and>
         chmods dir_fd T + of_bool (c_attempted_chmod child) \<le> of_bool (c_attempted_chmod child')))"

text \<open>
  From \<open>s\<close> to \<open>s'\<close> the run closed every descriptor it opened, once, and closed
  no other: whatever descriptors were open before its calls are the ones open after.
\<close>

definition balanced :: "'w state \<Rightarrow> 'w state \<Rightarrow> bool" where
  "balanced s s' = (\<exists>T. steps s T s' \<and> (\<forall>H. track T H = Some H))"

text \<open>The state in which the recursive run on the link \<open>/l\<close> ends.\<close>

definition ex_run_l :: "fs state" where
  "ex_run_l = snd (the (main 5 posix False True False [''/l''] (init ex_fs)))"

text \<open>
  The states the recursive deletion of another user's directory \<open>/foreign\<close> passes
  through, from the root: after the refused \<^verbatim>\<open>rmdir\<close>, after the open, after
  \<^verbatim>\<open>scandir\<close>, and after the loop over its two files; and the calls of that loop.
\<close>

definition ex_for1 :: "fs state" where
  "ex_for1 = snd (snd (delete_single_with_chmod posix (ex_parent ''/'') (ex_child ''foreign'' True)
                        False False (ex_at ''/'')))"

definition ex_for2 :: "fs state" where
  "ex_for2 = snd (snd (open_with_chmod posix (ex_parent ''/'') (ex_child ''foreign'' True) ex_for1))"

definition ex_for3 :: "fs state" where
  "ex_for3 = snd (sys_scandir posix 4 ex_for2)"

definition ex_for4 :: "fs state" where
  "ex_for4 = snd (snd (the (scan_loop 3 posix ''/foreign'' 4 0 (ex_child ''foreign'' True)
                              False False True ex_for3)))"

definition ex_for_calls :: "event list" where
  "ex_for_calls =
     [ScandirNext 0 (Inr (Some ''y'')), EntryIsDir 0 ''y'' (Inr False), Unlink ''y'' 4 (Inl EACCES),
      Fstat 4 (Inr 16749), Fchmod 4 493 (Inl EPERM),
      ScandirNext 0 (Inr (Some ''z'')), EntryIsDir 0 ''z'' (Inr False), Unlink ''z'' 4 (Inl EACCES),
      ScandirNext 0 (Inr None)]"

text \<open>
  The loop as the specification words it (step 4 of the traversal): every entry the
  listing yields is handed to \<open>delete_path\<close> with a new parent context (the
  directory's descriptor, the flag seeded from this node's) and a new child context, and
  the result of each is kept, whatever the results before it; the listing is followed to
  its end. The result is the list of the children's results in listing order, or the
  exception that ended the listing. \<open>scan_loop\<close> above is the loop as the source has
  it, with the running \<open>success\<close>; the two are compared below.
\<close>

fun children_results ::
  "nat \<Rightarrow> 'w os \<Rightarrow> bytes \<Rightarrow> fd \<Rightarrow> nat \<Rightarrow> ChildContext \<Rightarrow> bool \<Rightarrow> bool \<Rightarrow> 'w state
   \<Rightarrow> ((exn + bool list) \<times> ChildContext \<times> 'w state) option"
where
  "children_results fuel os dir_name dir_fd it child force verbose s =
     (case sys_scandir_next os it s of
        (Inl e, s1) \<Rightarrow> Some (Inl (OSError e), child, s1)
      | (Inr None, s1) \<Rightarrow> Some (Inr [], child, s1)
      | (Inr (Some entry_name), s1) \<Rightarrow>
          (case sys_entry_is_dir os it entry_name s1 of
             (Inl e, s2) \<Rightarrow> Some (Inl (OSError e), child, s2)
           | (Inr entry_is_dir, s2) \<Rightarrow>
               (case fuel of
                  0 \<Rightarrow> None
                | Suc k \<Rightarrow>
                    (case delete_path k os
                            \<lparr>p_name = dir_name, p_fd = dir_fd, p_attempted_chmod = c_attempted_chmod child\<rparr>
                            \<lparr>c_name = fsencode entry_name, c_is_dir = entry_is_dir, c_attempted_chmod = False\<rparr>
                            force entry_is_dir verbose s2 of
                       None \<Rightarrow> None
                     | Some (Inl x, dir_context, entry_context, s3) \<Rightarrow> Some (Inl x, child, s3)
                     | Some (Inr r, dir_context, entry_context, s3) \<Rightarrow>
                         (case children_results k os dir_name dir_fd it
                                 (child\<lparr>c_attempted_chmod :=
                                          c_attempted_chmod child \<or> p_attempted_chmod dir_context\<rparr>)
                                 force verbose s3 of
                            None \<Rightarrow> None
                          | Some (Inl x, child', s4) \<Rightarrow> Some (Inl x, child', s4)
                          | Some (Inr rs, child', s4) \<Rightarrow> Some (Inr (r # rs), child', s4))))))"

declare children_results.simps [simp del]

text \<open>
  The states the recursive deletion of \<open>/mix\<close> passes through, from the root: after
  the refused \<^verbatim>\<open>rmdir\<close>, after the open, after \<^verbatim>\<open>scandir\<close>, after both
  children, and after the final \<^verbatim>\<open>rmdir\<close>.
\<close>

definition ex_mix1 :: "fs state" where
  "ex_mix1 = snd (snd (delete_single_with_chmod posix (ex_parent ''/'') (ex_child ''mix'' True)
                        False False (ex_at ''/'')))"

definition ex_mix2 :: "fs state" where
  "ex_mix2 = snd (snd (open_with_chmod posix (ex_parent ''/'') (ex_child ''mix'' True) ex_mix1))"

definition ex_mix3 :: "fs state" where
  "ex_mix3 = snd (sys_scandir posix 4 ex_mix2)"

definition ex_mix4 :: "fs state" where
  "ex_mix4 = snd (snd (the (children_results 4 posix ''/mix'' 4 0 (ex_child ''mix'' True)
                              False False ex_mix3)))"

definition ex_mix5 :: "fs state" where
  "ex_mix5 = snd (snd (delete_single_with_chmod posix (ex_parent ''/'') (ex_child ''mix'' True)
                        False False (close_quietly posix 4 (sys_scandir_close posix 0 ex_mix4))))"

subsection \<open>Another process\<close>

text \<open>
  An operating system in which another process acts between the script's calls: the
  world carries the actions still to come, and each call is preceded by the next of
  them. \<open>other_unlink d nm\<close> is that process removing the entry \<open>nm\<close> of the
  directory with inode \<open>d\<close>.
\<close>

definition interfere :: "'w \<times> ('w \<Rightarrow> 'w) list \<Rightarrow> 'w \<times> ('w \<Rightarrow> 'w) list" where
  "interfere ws = (case snd ws of [] \<Rightarrow> ws | a # rest \<Rightarrow> (a (fst ws), rest))"

definition racing ::
  "('w \<Rightarrow> 'a \<times> 'w) \<Rightarrow> 'w \<times> ('w \<Rightarrow> 'w) list \<Rightarrow> 'a \<times> 'w \<times> ('w \<Rightarrow> 'w) list"
where
  "racing f ws = (case interfere ws of (w, rest) \<Rightarrow> (case f w of (r, w') \<Rightarrow> (r, w', rest)))"

definition racy :: "'w os \<Rightarrow> ('w \<times> ('w \<Rightarrow> 'w) list) os" where
  "racy os =
     \<lparr>os_realpath = (\<lambda>path. racing (os_realpath os path)),
      os_open = (\<lambda>path dir_fd. racing (os_open os path dir_fd)),
      os_close = (\<lambda>f. racing (os_close os f)),
      os_lstat = (\<lambda>path dir_fd. racing (os_lstat os path dir_fd)),
      os_chmod = (\<lambda>path mode dir_fd. racing (os_chmod os path mode dir_fd)),
      os_fstat = (\<lambda>f. racing (os_fstat os f)),
      os_fchmod = (\<lambda>f mode. racing (os_fchmod os f mode)),
      os_rmdir = (\<lambda>path dir_fd. racing (os_rmdir os path dir_fd)),
      os_unlink = (\<lambda>path dir_fd. racing (os_unlink os path dir_fd)),
      os_scandir = (\<lambda>f. racing (os_scandir os f)),
      os_scandir_next = (\<lambda>it. racing (os_scandir_next os it)),
      os_entry_is_dir = (\<lambda>it nm. racing (os_entry_is_dir os it nm)),
      os_scandir_close = (\<lambda>it ws. case interfere ws of (w, rest) \<Rightarrow> (os_scandir_close os it w, rest))\<rparr>"

definition other_unlink :: "nat \<Rightarrow> string \<Rightarrow> fs \<Rightarrow> fs" where
  "other_unlink d nm f =
     (case map_of (inodes f) d of
        None \<Rightarrow> f
      | Some dn \<Rightarrow>
          (case i_kind dn of
             Dir es \<Rightarrow> set_inode d (dn\<lparr>i_kind := Dir (AList.delete nm es)\<rparr>) f
           | Reg \<Rightarrow> f
           | Lnk t \<Rightarrow> f))"

text \<open>
  \<open>other_symlink d nm i target\<close> is that process moving the entry \<open>nm\<close> of the
  directory with inode \<open>d\<close> away and putting a symbolic link to \<open>target\<close>, the new
  inode \<open>i\<close>, in its place.
\<close>

definition other_symlink :: "nat \<Rightarrow> string \<Rightarrow> nat \<Rightarrow> bytes \<Rightarrow> fs \<Rightarrow> fs" where
  "other_symlink d nm i target f =
     (case map_of (inodes f) d of
        None \<Rightarrow> f
      | Some dn \<Rightarrow>
          (case i_kind dn of
             Dir es \<Rightarrow>
               set_inode d (dn\<lparr>i_kind := Dir (AList.update nm i es)\<rparr>)
                 (set_inode i \<lparr>i_kind = Lnk target, i_mode = 511, i_owned = True\<rparr> f)
           | Reg \<Rightarrow> f
           | Lnk t \<Rightarrow> f))"

section \<open>Properties\<close>

subsection \<open>Evaluating concrete runs\<close>

lemmas run_simps = delete_path.simps scan_loop.simps main_def posix_def init_def ex_fs_def ex_at_def ex_parent_def ex_child_def
  syscall_def sys_realpath_def sys_open_def sys_lstat_def sys_chmod_def sys_fstat_def
  sys_fchmod_def sys_rmdir_def sys_unlink_def sys_scandir_def sys_scandir_next_def
  sys_entry_is_dir_def sys_scandir_close_def close_quietly_def open_with_chmod_def
  delete_single_def delete_single_with_chmod_def fs_realpath_def fs_open_def fs_close_def
  fs_lstat_def fs_chmod_def fs_fstat_def fs_fchmod_def remove_entry_def fs_scandir_def
  fs_scandir_next_def fs_entry_is_dir_def fs_scandir_close_def open_stack_def chmod_inode_def
  set_inode_def fresh_fd_def fresh_iter_def path_of_def lookup_def top_def may_def
  st_mode_of_def is_Dir_def path_split_def path_join_def rstrip_sep_def printable_path_def
  fsdecode_def fsencode_def log_error_def log_path_def S_ISDIR_def S_IMODE_def S_IWUSR_def
  is_FileNotFoundError_def is_PermissionError_def

subsection \<open>The two retry policies\<close>

lemma delete_single_latch:
  "delete_single os (parent\<lparr>p_attempted_chmod := b\<rparr>) child s = delete_single os parent child s"
  by (simp add: delete_single_def)

text \<open>
  C2. One deletion attempt, by the outcome of \<open>delete_single\<close> (an \<^verbatim>\<open>unlink\<close> or
  an \<^verbatim>\<open>rmdir\<close>): a success returns; a not-found error is a success under \<open>force\<close>
  and is raised otherwise; a permission error with the parent's flag set is raised; a
  permission error with the flag unset sets the flag, reads the parent's mode with
  \<^verbatim>\<open>fstat\<close> on its descriptor, applies that mode with the owner-write bit added with
  \<^verbatim>\<open>fchmod\<close> on the descriptor, and attempts the deletion once more, whose outcome is
  final (the state returned is the state after that one retry); an error of
  \<^verbatim>\<open>fstat\<close> or \<^verbatim>\<open>fchmod\<close> is logged and the error of the deletion raised; any
  other error is raised at once.
\<close>

theorem delete_single_with_chmod_policy:
  "(delete_single os parent child s = (Inr (), s1) \<longrightarrow>
      delete_single_with_chmod os parent child force verbose s =
        (Inr (), parent,
         if verbose then log_path (printable_path (p_name parent) (c_name child)) s1 else s1))
   \<and> (delete_single os parent child s = (Inl e, s1) \<and> is_FileNotFoundError e \<longrightarrow>
      delete_single_with_chmod os parent child force verbose s =
        (if force then Inr () else Inl e, parent, s1))
   \<and> (delete_single os parent child s = (Inl e, s1) \<and> is_PermissionError e \<and>
        p_attempted_chmod parent \<longrightarrow>
      delete_single_with_chmod os parent child force verbose s = (Inl e, parent, s1))
   \<and> (delete_single os parent child s = (Inl e, s1) \<and> is_PermissionError e \<and>
        \<not> p_attempted_chmod parent \<and>
        sys_fstat os (p_fd parent) s1 = (Inr st_mode, s2) \<and>
        sys_fchmod os (p_fd parent) (S_IMODE st_mode OR S_IWUSR) s2 = (Inr (), s3) \<and>
        delete_single os parent child s3 = (r, s4) \<longrightarrow>
      delete_single_with_chmod os parent child force verbose s =
        (case r of
           Inr u \<Rightarrow>
             (Inr (), parent\<lparr>p_attempted_chmod := True\<rparr>,
              if verbose then log_path (printable_path (p_name parent) (c_name child)) s4 else s4)
         | Inl e' \<Rightarrow>
             (if is_FileNotFoundError e' \<and> force then Inr () else Inl e',
              parent\<lparr>p_attempted_chmod := True\<rparr>, s4)))
   \<and> (delete_single os parent child s = (Inl e, s1) \<and> is_PermissionError e \<and>
        \<not> p_attempted_chmod parent \<and>
        sys_fstat os (p_fd parent) s1 = (Inl chmod_e, s2) \<longrightarrow>
      delete_single_with_chmod os parent child force verbose s =
        (Inl e, parent\<lparr>p_attempted_chmod := True\<rparr>,
         log_error ''Failed to make writable'' (p_name parent) [] chmod_e s2))
   \<and> (delete_single os parent child s = (Inl e, s1) \<and> is_PermissionError e \<and>
        \<not> p_attempted_chmod parent \<and>
        sys_fstat os (p_fd parent) s1 = (Inr st_mode, s2) \<and>
        sys_fchmod os (p_fd parent) (S_IMODE st_mode OR S_IWUSR) s2 = (Inl chmod_e, s3) \<longrightarrow>
      delete_single_with_chmod os parent child force verbose s =
        (Inl e, parent\<lparr>p_attempted_chmod := True\<rparr>,
         log_error ''Failed to make writable'' (p_name parent) [] chmod_e s3))
   \<and> (delete_single os parent child s = (Inl e, s1) \<and> \<not> is_FileNotFoundError e \<and>
        \<not> is_PermissionError e \<longrightarrow>
      delete_single_with_chmod os parent child force verbose s = (Inl e, parent, s1))"
  by (auto simp: delete_single_with_chmod_def delete_single_latch is_FileNotFoundError_def
        is_PermissionError_def split: sum.splits)

text \<open>
  The file \<open>x\<close> of the read-only directory \<open>/ro\<close>: the unlink is refused, the
  directory's mode 0555 is read and 0755 applied through descriptor 3, and the second
  unlink succeeds.
\<close>

theorem delete_single_with_chmod_policy_witness:
  "delete_single posix (ex_parent ''/ro'') (ex_child ''x'' False) (ex_at ''/ro'') = (Inl EACCES, ex_del1)
   \<and> is_PermissionError EACCES
   \<and> sys_fstat posix 3 ex_del1 = (Inr 16749, ex_del2)
   \<and> sys_fchmod posix 3 (S_IMODE 16749 OR S_IWUSR) ex_del2 = (Inr (), ex_del3)
   \<and> delete_single posix (ex_parent ''/ro'') (ex_child ''x'' False) ex_del3 = (Inr (), ex_del4)
   \<and> delete_single_with_chmod posix (ex_parent ''/ro'') (ex_child ''x'' False) False False (ex_at ''/ro'')
       = (Inr (), (ex_parent ''/ro'')\<lparr>p_attempted_chmod := True\<rparr>, ex_del4)
   \<and> trace ex_del4 =
       [Open ''/ro'' None (Inr 3), Unlink ''x'' 3 (Inl EACCES), Fstat 3 (Inr 16749),
        Fchmod 3 493 (Inr ()), Unlink ''x'' 3 (Inr ())]"
proof -
  have h1: "delete_single posix (ex_parent ''/ro'') (ex_child ''x'' False) (ex_at ''/ro'')
            = (Inl EACCES, ex_del1)"
    by (simp add: ex_del1_def run_simps)
  have h2: "sys_fstat posix 3 ex_del1 = (Inr 16749, ex_del2)"
    by (simp add: ex_del2_def ex_del1_def run_simps)
  have h3: "sys_fchmod posix 3 (S_IMODE 16749 OR S_IWUSR) ex_del2 = (Inr (), ex_del3)"
    by (simp add: ex_del3_def ex_del2_def ex_del1_def run_simps)
  have h4: "delete_single posix (ex_parent ''/ro'') (ex_child ''x'' False) ex_del3 = (Inr (), ex_del4)"
    by (simp add: ex_del4_def ex_del3_def ex_del2_def ex_del1_def run_simps)
  have t: "trace ex_del4 =
       [Open ''/ro'' None (Inr 3), Unlink ''x'' 3 (Inl EACCES), Fstat 3 (Inr 16749),
        Fchmod 3 493 (Inr ()), Unlink ''x'' 3 (Inr ())]"
    by (simp add: ex_del4_def ex_del3_def ex_del2_def ex_del1_def run_simps)
  have p: "is_PermissionError EACCES"
    by (simp add: is_PermissionError_def)
  from delete_single_with_chmod_policy [where os = posix and parent = "ex_parent ''/ro''"
      and child = "ex_child ''x'' False" and s = "ex_at ''/ro''" and e = EACCES and ?s1.0 = ex_del1
      and st_mode = 16749 and ?s2.0 = ex_del2 and ?s3.0 = ex_del3 and r = "Inr ()"
      and ?s4.0 = ex_del4 and force = False and verbose = False]
  have "delete_single_with_chmod posix (ex_parent ''/ro'') (ex_child ''x'' False) False False (ex_at ''/ro'')
       = (Inr (), (ex_parent ''/ro'')\<lparr>p_attempted_chmod := True\<rparr>, ex_del4)"
    using h1 h2 h3 h4 p by (simp add: ex_parent_def)
  with h1 h2 h3 h4 p t show ?thesis by simp
qed



subsection \<open>Top-level paths\<close>





text \<open>
  C9. A top-level path that resolves to a directory (by the \<^verbatim>\<open>lstat\<close> of its leaf)
  which the operating system lets \<^verbatim>\<open>rmdir\<close> remove, as it does an existing empty
  directory the caller may delete: the run removes it with that one \<^verbatim>\<open>rmdir\<close>,
  made before \<open>recursive\<close> is looked at, and ends in success for either value of
  \<open>recursive\<close> and with no fuel at all.
\<close>

theorem empty_directory_needs_no_recursive:
  assumes "sys_realpath os path s = (Inr rpath, s1)"
    and "path_split rpath = (parent_name, leaf)" and "parent_name \<noteq> []"
    and "sys_open os parent_name None s1 = (Inr parent_fd, s2)"
    and "sys_lstat os (if leaf = [] then ''.'' else leaf) parent_fd s2 = (Inr st_mode, s3)"
    and "S_ISDIR st_mode"
    and "sys_rmdir os (if leaf = [] then ''.'' else leaf) parent_fd s3 = (Inr (), s4)"
  shows "main fuel os force recursive verbose [path] s =
           Some (Inr True,
                 close_quietly os parent_fd
                   (if verbose
                    then log_path (printable_path parent_name (if leaf = [] then ''.'' else leaf)) s4
                    else s4))"
  using assms
  by (simp add: main_def delete_path.simps delete_single_with_chmod_def delete_single_def)

text \<open>The empty directory \<open>/e\<close>, without \<open>recursive\<close>: five calls, and it is gone.\<close>

theorem empty_directory_needs_no_recursive_witness:
  "sys_realpath posix ''/e'' (init ex_fs) = (Inr ''/e'', ex_e1)
   \<and> path_split ''/e'' = (''/'', ''e'')
   \<and> sys_open posix ''/'' None ex_e1 = (Inr 3, ex_e2)
   \<and> sys_lstat posix ''e'' 3 ex_e2 = (Inr 16877, ex_e3)
   \<and> S_ISDIR 16877
   \<and> sys_rmdir posix ''e'' 3 ex_e3 = (Inr (), ex_e4)
   \<and> main 0 posix False False False [''/e''] (init ex_fs) = Some (Inr True, close_quietly posix 3 ex_e4)
   \<and> trace (close_quietly posix 3 ex_e4) =
        [Realpath ''/e'' (Inr ''/e''), Open ''/'' None (Inr 3), Lstat ''e'' 3 (Inr 16877),
         Rmdir ''e'' 3 (Inr ()), Close 3 (Inr ())]
   \<and> lookup (world (close_quietly posix 3 ex_e4)) 0 ''e'' = Inl ENOENT"
proof -
  have h1: "sys_realpath posix ''/e'' (init ex_fs) = (Inr ''/e'', ex_e1)"
    by (simp add: ex_e1_def run_simps)
  have h2: "path_split ''/e'' = (''/'', ''e'')"
    by (simp add: path_split_def rstrip_sep_def)
  have h3: "sys_open posix ''/'' None ex_e1 = (Inr 3, ex_e2)"
    by (simp add: ex_e2_def ex_e1_def run_simps)
  have h4: "sys_lstat posix (if ''e'' = [] then ''.'' else ''e'') 3 ex_e2 = (Inr 16877, ex_e3)"
    by (simp add: ex_e3_def ex_e2_def ex_e1_def run_simps)
  have h5: "S_ISDIR 16877"
    by (simp add: S_ISDIR_def)
  have h6: "sys_rmdir posix (if ''e'' = [] then ''.'' else ''e'') 3 ex_e3 = (Inr (), ex_e4)"
    by (simp add: ex_e4_def ex_e3_def ex_e2_def ex_e1_def run_simps)
  have n: "''/'' \<noteq> []" by simp
  note t = empty_directory_needs_no_recursive [OF h1 h2 n h3 h4 h5 h6, of 0 False False False]
  have tr: "trace (close_quietly posix 3 ex_e4) =
        [Realpath ''/e'' (Inr ''/e''), Open ''/'' None (Inr 3), Lstat ''e'' 3 (Inr 16877),
         Rmdir ''e'' 3 (Inr ()), Close 3 (Inr ())]"
    by (simp add: ex_e4_def ex_e3_def ex_e2_def ex_e1_def run_simps)
  have g: "lookup (world (close_quietly posix 3 ex_e4)) 0 ''e'' = Inl ENOENT"
    by (simp add: ex_e4_def ex_e3_def ex_e2_def ex_e1_def run_simps)
  from h1 h2 h3 h4 h5 h6 t tr g show ?thesis by simp
qed

text \<open>
  A top-level path that resolves (a symbolic link to an existing path resolves to
  its target): the node handed to \<open>delete_path\<close> is the resolved path's parent
  directory, opened by its resolved name, and the resolved path's leaf, classified by the
  \<^verbatim>\<open>lstat\<close> of that leaf; the argument as given is used in no call but
  \<^verbatim>\<open>realpath\<close>. An entry of a listed directory that
  \<^verbatim>\<open>entry.is_dir(follow_symlinks=False)\<close> does not report as a directory (as it
  does not for a symbolic link) is deleted by \<^verbatim>\<open>unlink\<close> relative to the listed
  directory's descriptor, with its one repair, and is never opened or listed.
\<close>

lemma top_level_path_is_resolved:
  "(sys_realpath os path s = (Inr rpath, s1) \<and>
    path_split rpath = (parent_name, leaf) \<and> parent_name \<noteq> [] \<and>
    sys_open os parent_name None s1 = (Inr parent_fd, s2) \<and>
    sys_lstat os (if leaf = [] then ''.'' else leaf) parent_fd s2 = (Inr st_mode, s3) \<longrightarrow>
    main_loop fuel os force recursive verbose (path # paths) success s =
      (case delete_path fuel os
              \<lparr>p_name = parent_name, p_fd = parent_fd, p_attempted_chmod = False\<rparr>
              \<lparr>c_name = (if leaf = [] then ''.'' else leaf), c_is_dir = S_ISDIR st_mode,
               c_attempted_chmod = False\<rparr>
              force recursive verbose s3 of
         None \<Rightarrow> None
       | Some (Inl x, parent, child, s4) \<Rightarrow> Some (Inl x, close_quietly os parent_fd s4)
       | Some (Inr r, parent, child, s4) \<Rightarrow>
           main_loop fuel os force recursive verbose paths (success \<and> r)
             (close_quietly os parent_fd s4)))
   \<and> (sys_scandir_next os it t = (Inr (Some entry_name), t1) \<and>
       sys_entry_is_dir os it entry_name t1 = (Inr False, t2) \<and>
       delete_single_with_chmod os
         \<lparr>p_name = dir_name, p_fd = dir_fd, p_attempted_chmod = c_attempted_chmod dir\<rparr>
         \<lparr>c_name = fsencode entry_name, c_is_dir = False, c_attempted_chmod = False\<rparr>
         force verbose t2 = (d, dir_context, t3) \<longrightarrow>
       scan_loop (Suc k) os dir_name dir_fd it dir force verbose success t =
         scan_loop k os dir_name dir_fd it
           (dir\<lparr>c_attempted_chmod := c_attempted_chmod dir \<or> p_attempted_chmod dir_context\<rparr>)
           force verbose
           (success \<and> (case d of Inr u \<Rightarrow> True | Inl e \<Rightarrow> False))
           (case d of
              Inr u \<Rightarrow> t3
            | Inl e \<Rightarrow> log_error ''Failed to delete'' dir_name (fsencode entry_name) e t3))
   \<and> (delete_single os
         \<lparr>p_name = dir_name, p_fd = dir_fd, p_attempted_chmod = b\<rparr>
         \<lparr>c_name = fsencode entry_name, c_is_dir = False, c_attempted_chmod = False\<rparr> t2
       = sys_unlink os (fsencode entry_name) dir_fd t2)"
  apply (intro conjI impI)
    apply (simp split: sum.splits)
   apply (subst scan_loop.simps)
   apply (subst delete_path.simps)
   apply (auto split: sum.splits)[1]
  apply (simp add: delete_single_def)
  done

text \<open>
  The link \<open>/l\<close> to \<open>/d\<close>, with \<open>recursive\<close>: the tree of \<open>/d\<close> is deleted
  and the link is still there. The directory \<open>/m\<close> holding a link to \<open>/d\<close>: the
  link is unlinked, and \<open>/d\<close> and its files stay.
\<close>

lemma top_level_path_is_resolved_run:
  "sys_realpath posix ''/l'' (init ex_fs) = (Inr ''/d'', ex_l1)
   \<and> path_split ''/d'' = (''/'', ''d'')
   \<and> sys_open posix ''/'' None ex_l1 = (Inr 3, ex_l2)
   \<and> sys_lstat posix ''d'' 3 ex_l2 = (Inr 16877, ex_l3)
   \<and> main_loop 5 posix False True False [''/l''] True (init ex_fs) =
       (case delete_path 5 posix
               \<lparr>p_name = ''/'', p_fd = 3, p_attempted_chmod = False\<rparr>
               \<lparr>c_name = ''d'', c_is_dir = True, c_attempted_chmod = False\<rparr>
               False True False ex_l3 of
          None \<Rightarrow> None
        | Some (Inl x, parent, child, s4) \<Rightarrow> Some (Inl x, close_quietly posix 3 s4)
        | Some (Inr r, parent, child, s4) \<Rightarrow> Some (Inr r, close_quietly posix 3 s4))
   \<and> map_option (\<lambda>r. (fst r, trace (snd r), lookup (world (snd r)) 0 ''l'', lookup (world (snd r)) 0 ''d''))
        (main 5 posix False True False [''/l''] (init ex_fs)) =
       Some (Inr True,
             [Realpath ''/l'' (Inr ''/d''), Open ''/'' None (Inr 3), Lstat ''d'' 3 (Inr 16877),
              Rmdir ''d'' 3 (Inl ENOTEMPTY), Open ''d'' (Some 3) (Inr 4), Scandir 4 (Inr 0),
              ScandirNext 0 (Inr (Some ''f'')), EntryIsDir 0 ''f'' (Inr False), Unlink ''f'' 4 (Inr ()),
              ScandirNext 0 (Inr (Some ''g'')), EntryIsDir 0 ''g'' (Inr False), Unlink ''g'' 4 (Inr ()),
              ScandirNext 0 (Inr None), ScandirClose 0, Close 4 (Inr ()), Rmdir ''d'' 3 (Inr ()),
              Close 3 (Inr ())],
             Inr 4, Inl ENOENT)
   \<and> map_option (\<lambda>r. (fst r, trace (snd r), lookup (world (snd r)) 0 ''m'', lookup (world (snd r)) 1 ''f''))
        (main 5 posix False True False [''/m''] (init ex_fs)) =
       Some (Inr True,
             [Realpath ''/m'' (Inr ''/m''), Open ''/'' None (Inr 3), Lstat ''m'' 3 (Inr 16877),
              Rmdir ''m'' 3 (Inl ENOTEMPTY), Open ''m'' (Some 3) (Inr 4), Scandir 4 (Inr 0),
              ScandirNext 0 (Inr (Some ''k'')), EntryIsDir 0 ''k'' (Inr False), Unlink ''k'' 4 (Inr ()),
              ScandirNext 0 (Inr None), ScandirClose 0, Close 4 (Inr ()), Rmdir ''m'' 3 (Inr ()),
              Close 3 (Inr ())],
             Inl ENOENT, Inr 2)"
proof -
  have h1: "sys_realpath posix ''/l'' (init ex_fs) = (Inr ''/d'', ex_l1)"
    by (simp add: ex_l1_def run_simps)
  have h2: "path_split ''/d'' = (''/'', ''d'')"
    by (simp add: path_split_def rstrip_sep_def)
  have h3: "sys_open posix ''/'' None ex_l1 = (Inr 3, ex_l2)"
    by (simp add: ex_l2_def ex_l1_def run_simps)
  have h4: "sys_lstat posix ''d'' 3 ex_l2 = (Inr 16877, ex_l3)"
    by (simp add: ex_l3_def ex_l2_def ex_l1_def run_simps)
  have d: "S_ISDIR 16877"
    by (simp add: S_ISDIR_def)
  from top_level_path_is_resolved [where os = posix and path = "''/l''"
      and s = "init ex_fs" and rpath = "''/d''" and ?s1.0 = ex_l1 and parent_name = "''/''"
      and leaf = "''d''" and parent_fd = 3 and ?s2.0 = ex_l2 and st_mode = 16877 and ?s3.0 = ex_l3
      and fuel = 5 and force = False and recursive = True and verbose = False and paths = "[]"
      and success = True, THEN conjunct1]
  have e: "main_loop 5 posix False True False [''/l''] True (init ex_fs) =
       (case delete_path 5 posix
               \<lparr>p_name = ''/'', p_fd = 3, p_attempted_chmod = False\<rparr>
               \<lparr>c_name = ''d'', c_is_dir = True, c_attempted_chmod = False\<rparr>
               False True False ex_l3 of
          None \<Rightarrow> None
        | Some (Inl x, parent, child, s4) \<Rightarrow> Some (Inl x, close_quietly posix 3 s4)
        | Some (Inr r, parent, child, s4) \<Rightarrow> Some (Inr r, close_quietly posix 3 s4))"
    using h1 h2 h3 h4 d by (auto split: option.splits sum.splits)
  have r1: "map_option (\<lambda>r. (fst r, trace (snd r), lookup (world (snd r)) 0 ''l'', lookup (world (snd r)) 0 ''d''))
        (main 5 posix False True False [''/l''] (init ex_fs)) =
       Some (Inr True,
             [Realpath ''/l'' (Inr ''/d''), Open ''/'' None (Inr 3), Lstat ''d'' 3 (Inr 16877),
              Rmdir ''d'' 3 (Inl ENOTEMPTY), Open ''d'' (Some 3) (Inr 4), Scandir 4 (Inr 0),
              ScandirNext 0 (Inr (Some ''f'')), EntryIsDir 0 ''f'' (Inr False), Unlink ''f'' 4 (Inr ()),
              ScandirNext 0 (Inr (Some ''g'')), EntryIsDir 0 ''g'' (Inr False), Unlink ''g'' 4 (Inr ()),
              ScandirNext 0 (Inr None), ScandirClose 0, Close 4 (Inr ()), Rmdir ''d'' 3 (Inr ()),
              Close 3 (Inr ())],
             Inr 4, Inl ENOENT)"
    unfolding main_def e
    by (simp add: ex_l3_def ex_l2_def ex_l1_def run_simps)
  have r2: "map_option (\<lambda>r. (fst r, trace (snd r), lookup (world (snd r)) 0 ''m'', lookup (world (snd r)) 1 ''f''))
        (main 5 posix False True False [''/m''] (init ex_fs)) =
       Some (Inr True,
             [Realpath ''/m'' (Inr ''/m''), Open ''/'' None (Inr 3), Lstat ''m'' 3 (Inr 16877),
              Rmdir ''m'' 3 (Inl ENOTEMPTY), Open ''m'' (Some 3) (Inr 4), Scandir 4 (Inr 0),
              ScandirNext 0 (Inr (Some ''k'')), EntryIsDir 0 ''k'' (Inr False), Unlink ''k'' 4 (Inr ()),
              ScandirNext 0 (Inr None), ScandirClose 0, Close 4 (Inr ()), Rmdir ''m'' 3 (Inr ()),
              Close 3 (Inr ())],
             Inl ENOENT, Inr 2)"
    by (simp add: run_simps)
  from h1 h2 h3 h4 e r1 r2 show ?thesis by simp
qed

subsection \<open>A non-empty directory without \<open>recursive\<close>\<close>

lemma only_mode_of_refl: "only_mode_of j f f"
  by (simp add: only_mode_of_def)

lemma remove_entry_nonempty:
  assumes "map_of (fdtab f) d = Some stk"
    and "map_of (inodes f) (top stk) = Some dn" and "i_kind dn = Dir es"
    and "map_of es nm = Some i"
    and "map_of (inodes f) i = Some nd" and "i_kind nd = Dir sub" and "sub \<noteq> []"
  shows "\<exists>e. remove_entry wd nm d f = (Inl e, f) \<and> e \<noteq> ENOENT"
  using assms by (simp add: remove_entry_def lookup_def)

lemma fs_fstat_same: "snd (fs_fstat d f) = f"
  by (simp add: fs_fstat_def split: option.splits)

lemma fs_fchmod_only_mode:
  assumes "map_of (fdtab f) d = Some stk"
  shows "only_mode_of (top stk) f (snd (fs_fchmod d m f))"
  using assms
  by (auto simp: fs_fchmod_def chmod_inode_def set_inode_def only_mode_of_def
        update_conv' split: option.splits if_splits)

lemma remove_entry_nonempty_after:
  assumes "only_mode_of (top stk) f f'"
    and "map_of (fdtab f) d = Some stk"
    and "map_of (inodes f) (top stk) = Some dn" and "i_kind dn = Dir es"
    and "map_of es nm = Some i"
    and "map_of (inodes f) i = Some nd" and "i_kind nd = Dir sub" and "sub \<noteq> []"
  shows "\<exists>e. remove_entry wd nm d f' = (Inl e, f') \<and> e \<noteq> ENOENT"
proof -
  from assms(1) have fd: "fdtab f' = fdtab f"
    and k: "\<And>j. map_option i_kind (map_of (inodes f') j) = map_option i_kind (map_of (inodes f) j)"
    by (simp_all add: only_mode_of_def)
  from k [of "top stk"] assms(3,4) obtain dn' where
    dn': "map_of (inodes f') (top stk) = Some dn'" "i_kind dn' = Dir es"
    by (cases "map_of (inodes f') (top stk)") auto
  from k [of i] assms(6,7) obtain nd' where
    nd': "map_of (inodes f') i = Some nd'" "i_kind nd' = Dir sub"
    by (cases "map_of (inodes f') i") auto
  from remove_entry_nonempty [of f' d stk dn' es nm i nd' sub wd] fd assms(2,5,8) dn' nd'
  show ?thesis by simp
qed

lemma delete_single_posix:
  assumes "remove_entry (c_is_dir child) (c_name child) (p_fd parent) (world s) = (r, w)"
  shows "\<exists>s1. delete_single posix parent child s = (r, s1) \<and> world s1 = w \<and> stderr s1 = stderr s"
  using assms
  by (cases "c_is_dir child")
     (simp_all add: delete_single_def sys_rmdir_def sys_unlink_def syscall_def posix_def)

lemma delete_single_with_chmod_nonempty:
  assumes fd: "map_of (fdtab (world s)) (p_fd parent) = Some stk"
    and dn: "map_of (inodes (world s)) (top stk) = Some dn" "i_kind dn = Dir es"
    and ent: "map_of es (c_name child) = Some i"
    and nd: "map_of (inodes (world s)) i = Some nd" "i_kind nd = Dir sub" "sub \<noteq> []"
  shows "\<exists>e p1 s1. delete_single_with_chmod posix parent child force verbose s = (Inl e, p1, s1)
           \<and> only_mode_of (top stk) (world s) (world s1)"
proof -
  note hyps = fd dn ent nd
  from remove_entry_nonempty [OF hyps] obtain e1 where
    r1: "remove_entry (c_is_dir child) (c_name child) (p_fd parent) (world s) = (Inl e1, world s)"
    and n1: "e1 \<noteq> ENOENT"
    by blast
  from delete_single_posix [OF r1] obtain s1 where
    d1: "delete_single posix parent child s = (Inl e1, s1)" and w1: "world s1 = world s"
    by blast
  show ?thesis
  proof (cases "is_PermissionError e1 \<and> \<not> p_attempted_chmod parent")
    case False
    with d1 n1 have "delete_single_with_chmod posix parent child force verbose s = (Inl e1, parent, s1)"
      by (auto simp: delete_single_with_chmod_def is_FileNotFoundError_def)
    with w1 show ?thesis by (simp add: only_mode_of_refl)
  next
    case True
    obtain r2 s2 where f2: "sys_fstat posix (p_fd parent) s1 = (r2, s2)"
      by (cases "sys_fstat posix (p_fd parent) s1")
    then have w2: "world s2 = world s"
      using w1 fs_fstat_same [of "p_fd parent" "world s"]
      by (auto simp: sys_fstat_def syscall_def posix_def split: prod.splits)
    show ?thesis
    proof (cases r2)
      case (Inl ce)
      with True d1 n1 f2
      have "delete_single_with_chmod posix parent child force verbose s =
              (Inl e1, parent\<lparr>p_attempted_chmod := True\<rparr>,
               log_error ''Failed to make writable'' (p_name parent) [] ce s2)"
        by (simp add: delete_single_with_chmod_def is_FileNotFoundError_def)
      with w2 show ?thesis by (simp add: only_mode_of_refl log_error_def)
    next
      case (Inr m)
      obtain r3 s3 where f3: "sys_fchmod posix (p_fd parent) (S_IMODE m OR S_IWUSR) s2 = (r3, s3)"
        by (cases "sys_fchmod posix (p_fd parent) (S_IMODE m OR S_IWUSR) s2")
      then have w3: "world s3 = snd (fs_fchmod (p_fd parent) (S_IMODE m OR S_IWUSR) (world s))"
        using w2 by (auto simp: sys_fchmod_def syscall_def posix_def split: prod.splits)
      have o3: "only_mode_of (top stk) (world s) (world s3)"
        unfolding w3 by (rule fs_fchmod_only_mode [OF fd])
      show ?thesis
      proof (cases r3)
        case (Inl ce)
        with True d1 n1 f2 f3 Inr
        have "delete_single_with_chmod posix parent child force verbose s =
                (Inl e1, parent\<lparr>p_attempted_chmod := True\<rparr>,
                 log_error ''Failed to make writable'' (p_name parent) [] ce s3)"
          by (simp add: delete_single_with_chmod_def is_FileNotFoundError_def)
        with o3 show ?thesis by (simp add: log_error_def)
      next
        case r3: (Inr u)
        from remove_entry_nonempty_after [OF o3 hyps] obtain e4 where
          r4: "remove_entry (c_is_dir child) (c_name child) (p_fd parent) (world s3) = (Inl e4, world s3)"
          and n4: "e4 \<noteq> ENOENT"
          by blast
        from delete_single_posix [OF r4] obtain s4 where
          d4: "delete_single posix parent child s3 = (Inl e4, s4)" and w4: "world s4 = world s3"
          by blast
        from True d1 n1 f2 f3 Inr r3 d4 n4
        have "delete_single_with_chmod posix parent child force verbose s =
                (Inl e4, parent\<lparr>p_attempted_chmod := True\<rparr>, s4)"
          by (simp add: delete_single_with_chmod_def is_FileNotFoundError_def delete_single_latch)
        with o3 w4 show ?thesis by simp
      qed
    qed
  qed
qed

text \<open>
  C8. On the file system above, let the parent's descriptor be open on a directory
  that has an entry of the child's name, and let that entry be a directory with at least
  one entry. Then \<open>delete_path\<close> with \<open>recursive\<close> unset returns false, for any fuel
  and any \<open>force\<close>; the last line logged is the failed deletion with the node's
  printable path; and afterwards every inode has the kind, entries and link target it
  had, every inode but the parent directory's own has its permission bits too (the
  parent's may have gained the owner-write bit from the repair), and the descriptor
  table is the same: nothing under the directory was deleted or made writable.
\<close>

theorem nonempty_directory_without_recursive:
  assumes fd: "map_of (fdtab (world s)) (p_fd parent) = Some stk"
    and dn: "map_of (inodes (world s)) (top stk) = Some dn" "i_kind dn = Dir es"
    and ent: "map_of es (c_name child) = Some i"
    and nd: "map_of (inodes (world s)) i = Some nd" "i_kind nd = Dir sub" "sub \<noteq> []"
  shows "\<exists>e parent' s'.
           delete_path fuel posix parent child force False verbose s = Some (Inr False, parent', child, s')
           \<and> last (stderr s') = LogError ''Failed to delete'' (printable_path (p_name parent) (c_name child)) e
           \<and> fdtab (world s') = fdtab (world s)
           \<and> (\<forall>j. map_option i_kind (map_of (inodes (world s')) j) =
                    map_option i_kind (map_of (inodes (world s)) j))
           \<and> (\<forall>j. j \<noteq> top stk \<longrightarrow> map_of (inodes (world s')) j = map_of (inodes (world s)) j)"
proof -
  from delete_single_with_chmod_nonempty [OF assms, of force verbose] obtain e p1 s1 where
    d: "delete_single_with_chmod posix parent child force verbose s = (Inl e, p1, s1)"
    and o: "only_mode_of (top stk) (world s) (world s1)"
    by blast
  from d have "delete_path fuel posix parent child force False verbose s =
      Some (Inr False, p1, child, log_error ''Failed to delete'' (p_name parent) (c_name child) e s1)"
    by (simp add: delete_path.simps)
  with o show ?thesis
    by (simp add: log_error_def only_mode_of_def)
qed

text \<open>
  The directory \<open>/d\<close> with its two files, from the root: one refused \<^verbatim>\<open>rmdir\<close>,
  one line logged, and \<open>/d\<close> and both files are as they were.
\<close>

theorem nonempty_directory_without_recursive_witness:
  "map_of (fdtab (world (ex_at ''/''))) 3 = Some []
   \<and> map_option i_kind (map_of (inodes (world (ex_at ''/''))) (top [])) =
       Some (Dir [(''d'', 1), (''l'', 4), (''e'', 5), (''ro'', 6), (''locked'', 8),
                  (''foreign'', 9), (''vault'', 11), (''m'', 12), (''mix'', 14)])
   \<and> map_option i_kind (map_of (inodes (world (ex_at ''/''))) 1) = Some (Dir [(''f'', 2), (''g'', 3)])
   \<and> delete_path 0 posix (ex_parent ''/'') (ex_child ''d'' True) False False False (ex_at ''/'') =
       Some (Inr False, ex_parent ''/'', ex_child ''d'' True,
             log_error ''Failed to delete'' ''/'' ''d'' ENOTEMPTY ex_d1)
   \<and> stderr (log_error ''Failed to delete'' ''/'' ''d'' ENOTEMPTY ex_d1) =
       [LogError ''Failed to delete'' ''/d'' ENOTEMPTY]
   \<and> trace ex_d1 = [Open ''/'' None (Inr 3), Rmdir ''d'' 3 (Inl ENOTEMPTY)]
   \<and> map_of (inodes (world ex_d1)) 1 = map_of (inodes ex_fs) 1
   \<and> map_of (inodes (world ex_d1)) 2 = map_of (inodes ex_fs) 2
   \<and> map_of (inodes (world ex_d1)) 3 = map_of (inodes ex_fs) 3"
proof -
  have w: "world (ex_at ''/'') = ex_fs\<lparr>fdtab := [(3, [])]\<rparr>"
    by (simp add: run_simps)
  have h1: "map_of (fdtab (world (ex_at ''/''))) (p_fd (ex_parent ''/'')) = Some []"
    by (simp add: w ex_parent_def)
  have h2: "map_of (inodes (world (ex_at ''/''))) (top []) =
      Some \<lparr>i_kind = Dir [(''d'', 1), (''l'', 4), (''e'', 5), (''ro'', 6), (''locked'', 8),
                            (''foreign'', 9), (''vault'', 11), (''m'', 12), (''mix'', 14)],
            i_mode = 493, i_owned = True\<rparr>"
    by (simp add: w ex_fs_def top_def)
  have h3: "map_of [(''d'', 1), (''l'', 4), (''e'', 5), (''ro'', 6), (''locked'', 8),
                    (''foreign'', 9), (''vault'', 11), (''m'', 12), (''mix'', 14::nat)] (c_name (ex_child ''d'' True))
            = Some 1"
    by (simp add: ex_child_def)
  have h4: "map_of (inodes (world (ex_at ''/''))) 1 =
      Some \<lparr>i_kind = Dir [(''f'', 2), (''g'', 3)], i_mode = 493, i_owned = True\<rparr>"
    by (simp add: w ex_fs_def)
  have ne: "[(''f'', 2), (''g'', 3::nat)] \<noteq> []" by simp
  from nonempty_directory_without_recursive [OF h1 h2 _ h3 h4 _ ne, of 0 False False, simplified]
  obtain e p' s' where
    r: "delete_path 0 posix (ex_parent ''/'') (ex_child ''d'' True) False False False (ex_at ''/'') =
          Some (Inr False, p', ex_child ''d'' True, s')"
    and fr: "\<forall>j. j \<noteq> top [] \<longrightarrow> map_of (inodes (world s')) j = map_of (inodes (world (ex_at ''/''))) j"
    by blast
  have c: "delete_path 0 posix (ex_parent ''/'') (ex_child ''d'' True) False False False (ex_at ''/'') =
       Some (Inr False, ex_parent ''/'', ex_child ''d'' True,
             log_error ''Failed to delete'' ''/'' ''d'' ENOTEMPTY ex_d1)"
    by (simp add: ex_d1_def run_simps)
  from r c have s': "s' = log_error ''Failed to delete'' ''/'' ''d'' ENOTEMPTY ex_d1"
    by simp
  have wl: "world (log_error ''Failed to delete'' ''/'' ''d'' ENOTEMPTY ex_d1) = world ex_d1"
    by (simp add: log_error_def)
  from fr s' wl w have fr': "\<And>j. j \<noteq> 0 \<Longrightarrow> map_of (inodes (world ex_d1)) j = map_of (inodes ex_fs) j"
    by (simp add: top_def)
  have l: "stderr (log_error ''Failed to delete'' ''/'' ''d'' ENOTEMPTY ex_d1) =
       [LogError ''Failed to delete'' ''/d'' ENOTEMPTY]"
    by (simp add: ex_d1_def run_simps)
  have t: "trace ex_d1 = [Open ''/'' None (Inr 3), Rmdir ''d'' 3 (Inl ENOTEMPTY)]"
    by (simp add: ex_d1_def run_simps)
  from h1 h2 h4 c l t fr' [of 1] fr' [of 2] fr' [of 3] show ?thesis
    by (simp add: ex_parent_def)
qed

subsection \<open>The calls of a run\<close>

lemma steps_refl [simp]: "steps s [] s"
  by (simp add: steps_def)

lemma steps_trans: "steps s T1 s1 \<Longrightarrow> steps s1 T2 s2 \<Longrightarrow> steps s (T1 @ T2) s2"
  by (simp add: steps_def)

lemma steps_log_error [simp]: "steps s T (log_error m p c e s') = steps s T s'"
  by (simp add: steps_def log_error_def)

lemma steps_log_path [simp]: "steps s T (log_path p s') = steps s T s'"
  by (simp add: steps_def log_path_def)

lemma steps_syscall: "syscall f ev s = (r, s') \<Longrightarrow> steps s [ev r] s'"
  by (auto simp: syscall_def steps_def split: prod.splits)

lemma steps_close_quietly: "\<exists>r. steps s [Close f r] (close_quietly os f s)"
  by (auto simp: close_quietly_def syscall_def steps_def split: prod.splits)

lemma steps_scandir_close: "steps s [ScandirClose it] (sys_scandir_close os it s)"
  by (simp add: sys_scandir_close_def steps_def)

lemma track_append:
  "track (A @ B) H = (case track A H of None \<Rightarrow> None | Some H' \<Rightarrow> track B H')"
  by (induction A arbitrary: H) (auto split: option.splits)

lemma repairs_append [simp]: "repairs x (A @ B) = repairs x A + repairs x B"
  by (simp add: repairs_def)

lemma chmods_append [simp]: "chmods x (A @ B) = chmods x A + chmods x B"
  by (simp add: chmods_def)

lemma reopened_append [simp]: "reopened x (A @ B) = (reopened x A \<or> reopened x B)"
  by (auto simp: reopened_def list_ex_iff)

lemma steps_delete_single:
  "delete_single os parent child s = (r, s') \<Longrightarrow>
     \<exists>e. steps s [e] s' \<and> (\<forall>H. handle_step e H = Some H) \<and> (\<forall>x. \<not> is_fstat x e \<and> \<not> is_fchmod x e \<and> \<not> opens_fd x e)"
  by (auto simp: delete_single_def sys_rmdir_def sys_unlink_def syscall_def steps_def
        split: prod.splits if_splits)

lemma steps_delete_single_with_chmod:
  assumes "delete_single_with_chmod os parent child force verbose s = (r, parent', s')"
  shows "\<exists>T. steps s T s' \<and> quiet T
           \<and> p_fd parent' = p_fd parent \<and> p_name parent' = p_name parent
           \<and> (\<forall>x. x \<noteq> p_fd parent \<longrightarrow> repairs x T = 0 \<and> chmods x T = 0)
           \<and> repairs (p_fd parent) T + of_bool (p_attempted_chmod parent) \<le> of_bool (p_attempted_chmod parent')
           \<and> chmods (p_fd parent) T + of_bool (p_attempted_chmod parent) \<le> of_bool (p_attempted_chmod parent')"
  using assms
  apply (simp add: delete_single_with_chmod_def delete_single_def sys_rmdir_def sys_unlink_def
      sys_fstat_def sys_fchmod_def syscall_def steps_def quiet_def repairs_def chmods_def reopened_def
      split: prod.splits sum.splits if_splits)
                      apply (auto simp: log_path_def log_error_def)
  done

subsection \<open>What the traversal does to descriptors and flags\<close>

lemma open_with_chmod_result:
  "open_with_chmod os parent child s = (Inl x, child', s') \<Longrightarrow> \<exists>e. x = OSError e"
  by (auto simp: open_with_chmod_def split: prod.splits sum.splits if_splits)

lemma steps_open_with_chmod:
  assumes "open_with_chmod os parent child s = (r, child', s')"
  shows "\<exists>T. steps s T s'
           \<and> (\<forall>H. track T H = Some (case r of Inr f \<Rightarrow> f # H | Inl x \<Rightarrow> H))
           \<and> (\<forall>x. repairs x T = 0 \<and> chmods x T = 0)
           \<and> (\<forall>x. reopened x T = (r = Inr x))
           \<and> (c_attempted_chmod child \<longrightarrow> c_attempted_chmod child')"
  using assms
  apply (simp add: open_with_chmod_def sys_open_def sys_lstat_def sys_chmod_def syscall_def
      steps_def repairs_def chmods_def reopened_def
      split: prod.splits sum.splits if_splits)
                      apply (auto simp: log_error_def)
  done

lemma steps_sys_scandir: "sys_scandir os f s = (r, s') \<Longrightarrow> steps s [Scandir f r] s'"
  by (simp add: sys_scandir_def steps_syscall)

lemma steps_sys_scandir_next: "sys_scandir_next os it s = (r, s') \<Longrightarrow> steps s [ScandirNext it r] s'"
  by (simp add: sys_scandir_next_def steps_syscall)

lemma steps_sys_entry_is_dir:
  "sys_entry_is_dir os it n s = (r, s') \<Longrightarrow> steps s [EntryIsDir it n r] s'"
  by (simp add: sys_entry_is_dir_def steps_syscall)

lemma no_exception_escapes:
  "(\<forall>(os::'w os) parent child force recursive verbose s res parent' child' s'.
      delete_path fuel os parent child force recursive verbose s = Some (res, parent', child', s')
      \<longrightarrow> (\<exists>b. res = Inr b))
   \<and> (\<forall>(os::'w os) dir_name dir_fd it child force verbose success s x child' s'.
      scan_loop fuel os dir_name dir_fd it child force verbose success s = Some (Inl x, child', s')
      \<longrightarrow> (\<exists>e. x = OSError e))"
proof (induction fuel rule: less_induct)
  case (less n)
  have IHn: "\<exists>b. res = Inr b"
    if "delete_path k os parent child force recursive verbose s = Some (res, parent', child', s')"
      and "k < n"
    for k and os :: "'w os" and parent child force recursive verbose s res parent' child' s'
    using less.IH [OF that(2), THEN conjunct1, rule_format, OF that(1)] .
  have IHl: "\<exists>e. x = OSError e"
    if "scan_loop k os dir_name dir_fd it child force verbose success s = Some (Inl x, child', s')"
      and "k < n"
    for k and os :: "'w os" and dir_name dir_fd it child force verbose success s x child' s'
    using less.IH [OF that(2), THEN conjunct2, rule_format, OF that(1)] .
  have node: "\<exists>b. res = Inr b"
    if d: "delete_path n os parent child force recursive verbose s = Some (res, parent', child', s')"
    for os :: "'w os" and parent child force recursive verbose s res parent' child' s'
    using d
    apply (subst (asm) delete_path.simps)
    apply (auto split: prod.splits sum.splits if_splits exn.splits nat.splits option.splits
                dest: open_with_chmod_result dest!: IHl)
    done
  have loop: "\<exists>e. x = OSError e"
    if l: "scan_loop n os dir_name dir_fd it child force verbose success s = Some (Inl x, child', s')"
    for os :: "'w os" and dir_name dir_fd it child force verbose success s x child' s'
    using l
    apply (subst (asm) scan_loop.simps)
    apply (auto split: prod.splits sum.splits if_splits exn.splits nat.splits option.splits
                dest!: IHn IHl)
    done
  from node loop show ?case by blast
qed

lemma add_of_bool_le:
  "(n + of_bool a \<le> (of_bool b :: nat)) = (if a then b \<and> n = 0 else n = 0 \<or> (n = 1 \<and> b))"
  by (cases a; cases b) auto

lemma delete_path_returns:
  "delete_path fuel os parent child force recursive verbose s = Some (res, parent', child', s')
   \<Longrightarrow> \<exists>b. res = Inr b"
  using no_exception_escapes [of fuel, THEN conjunct1, rule_format] .

lemma scan_loop_raises:
  "scan_loop fuel os dir_name dir_fd it child force verbose success s = Some (Inl x, child', s')
   \<Longrightarrow> \<exists>e. x = OSError e"
  using no_exception_escapes [of fuel, THEN conjunct2, rule_format] .

lemma repairs_simps [simp]:
  "repairs x [] = 0" "repairs x (e # T) = (if is_fstat x e then 1 else 0) + repairs x T"
  by (simp_all add: repairs_def)

lemma chmods_simps [simp]:
  "chmods x [] = 0" "chmods x (e # T) = (if is_fchmod x e then 1 else 0) + chmods x T"
  by (simp_all add: chmods_def)

lemma reopened_simps [simp]:
  "reopened x [] = False" "reopened x (e # T) = (opens_fd x e \<or> reopened x T)"
  by (simp_all add: reopened_def)

lemma node_ok_then_delete:
  assumes "node_ok parent parent1 child child2 A" and "quiet B" and "p_fd parent2 = p_fd parent1"
    and "\<forall>x. x \<noteq> p_fd parent1 \<longrightarrow> repairs x B = 0 \<and> chmods x B = 0"
    and "repairs (p_fd parent1) B + of_bool (p_attempted_chmod parent1)
           \<le> of_bool (p_attempted_chmod parent2)"
    and "chmods (p_fd parent1) B + of_bool (p_attempted_chmod parent1)
           \<le> of_bool (p_attempted_chmod parent2)"
  shows "node_ok parent parent2 child child2 (A @ B)"
  using assms
  by (auto simp: node_ok_def quiet_def track_append add_of_bool_le split: if_splits)

lemma loop_ok_step:
  assumes "node_ok ctx ctx' entry entry' A" and "p_fd ctx = dir_fd"
    and "p_attempted_chmod ctx = c_attempted_chmod child"
    and "loop_ok dir_fd
           (child\<lparr>c_attempted_chmod := c_attempted_chmod child \<or> p_attempted_chmod ctx'\<rparr>) child' B"
  shows "loop_ok dir_fd child child' (A @ B)"
  using assms
  by (auto simp: node_ok_def loop_ok_def track_append add_of_bool_le split: if_splits)

lemma loop_ok_listing:
  assumes "loop_ok dir_fd child child' T"
  shows "loop_ok dir_fd child child' (ScandirNext it r # EntryIsDir it n r' # T)"
  using assms by (auto simp: loop_ok_def)

lemma loop_ok_end:
  "loop_ok dir_fd child child [ScandirNext it r]"
  "loop_ok dir_fd child child [ScandirNext it r, EntryIsDir it n r']"
  by (auto simp: loop_ok_def add_of_bool_le)

lemma traversal_invariant:
  "(\<forall>(os::'w os) parent child force recursive verbose s res parent' child' s'.
      delete_path fuel os parent child force recursive verbose s = Some (res, parent', child', s')
      \<longrightarrow> (\<exists>T. steps s T s' \<and> node_ok parent parent' child child' T))
   \<and> (\<forall>(os::'w os) dir_name dir_fd it child force verbose success s res child' s'.
      scan_loop fuel os dir_name dir_fd it child force verbose success s = Some (res, child', s')
      \<longrightarrow> (\<exists>T. steps s T s' \<and> loop_ok dir_fd child child' T))"
proof (induction fuel rule: less_induct)
  case (less n)
  have IHn: "\<exists>T. steps s T s' \<and> node_ok parent parent' child child' T"
    if "delete_path k os parent child force recursive verbose s = Some (res, parent', child', s')"
      and "k < n"
    for k and os :: "'w os" and parent child force recursive verbose s res parent' child' s'
    using less.IH [OF that(2), THEN conjunct1, rule_format, OF that(1)] .
  have IHl: "\<exists>T. steps s T s' \<and> loop_ok dir_fd child child' T"
    if "scan_loop k os dir_name dir_fd it child force verbose success s = Some (res, child', s')"
      and "k < n"
    for k and os :: "'w os" and dir_name dir_fd it child force verbose success s res child' s'
    using less.IH [OF that(2), THEN conjunct2, rule_format, OF that(1)] .
  have node: "\<exists>T. steps s T s' \<and> node_ok parent parent' child child' T"
    if d: "delete_path n os parent child force recursive verbose s = Some (res, parent', child', s')"
    for os :: "'w os" and parent child force recursive verbose s res parent' child' s'
  proof -
    obtain r1 parent1 s1 where
      d1: "delete_single_with_chmod os parent child force verbose s = (r1, parent1, s1)"
      by (cases "delete_single_with_chmod os parent child force verbose s") auto
    from steps_delete_single_with_chmod [OF d1] obtain T1 where
      t1: "steps s T1 s1" and q1: "quiet T1" and fd1: "p_fd parent1 = p_fd parent"
      and o1: "\<forall>x. x \<noteq> p_fd parent \<longrightarrow> repairs x T1 = 0 \<and> chmods x T1 = 0"
      and c1: "repairs (p_fd parent) T1 + of_bool (p_attempted_chmod parent)
                 \<le> of_bool (p_attempted_chmod parent1)"
              "chmods (p_fd parent) T1 + of_bool (p_attempted_chmod parent)
                 \<le> of_bool (p_attempted_chmod parent1)"
      by blast
    have base: "node_ok parent parent1 child child T1"
      using q1 fd1 o1 c1 by (auto simp: node_ok_def quiet_def add_of_bool_le split: if_splits)
    show ?thesis
    proof (cases "(\<exists>u. r1 = Inr u) \<or> \<not> recursive \<or> \<not> c_is_dir child")
      case True
      with d d1 have "parent' = parent1 \<and> child' = child \<and> steps s T1 s'"
        using t1
        by (subst (asm) delete_path.simps) (auto split: sum.splits if_splits)
      with base show ?thesis by blast
    next
      case False
      then obtain e where r1: "r1 = Inl e" and rec: "recursive" "c_is_dir child"
        by (cases r1) auto
      obtain r2 child1 s2 where
        d2: "open_with_chmod os parent1 child s1 = (r2, child1, s2)"
        by (cases "open_with_chmod os parent1 child s1") auto
      from steps_open_with_chmod [OF d2] obtain T2 where
        t2: "steps s1 T2 s2"
        and k2: "\<forall>H. track T2 H = Some (case r2 of Inr f \<Rightarrow> f # H | Inl x \<Rightarrow> H)"
        and o2: "\<forall>x. repairs x T2 = 0 \<and> chmods x T2 = 0"
        and p2: "\<forall>x. reopened x T2 = (r2 = Inr x)"
        and l2: "c_attempted_chmod child \<longrightarrow> c_attempted_chmod child1"
        by blast
      show ?thesis
      proof (cases r2)
        case (Inl x)
        with d d1 r1 rec d2 have "parent' = parent1 \<and> child' = child1 \<and> steps s1 T2 s'"
          using t2
          by (subst (asm) delete_path.simps) (auto split: sum.splits if_splits exn.splits)
        then have "steps s (T1 @ T2) s'" and pc: "parent' = parent1" "child' = child1"
          using t1 by (auto intro: steps_trans)
        moreover have "node_ok parent parent1 child child1 (T1 @ T2)"
          using q1 fd1 o1 c1 k2 o2 p2 l2 Inl
          by (auto simp: node_ok_def quiet_def track_append add_of_bool_le split: if_splits)
        ultimately show ?thesis by blast
      next
        case (Inr dir_fd)
        obtain r3 s3 where d3: "sys_scandir os dir_fd s2 = (r3, s3)"
          by (cases "sys_scandir os dir_fd s2") auto
        note t3 = steps_sys_scandir [OF d3]
        have tc: "\<And>t. \<exists>rc. steps t [Close dir_fd rc] (close_quietly os dir_fd t)"
          using steps_close_quietly by blast
        show ?thesis
        proof (cases r3)
          case (Inl e3)
          from tc obtain rc where
            t4: "steps s3 [Close dir_fd rc] (close_quietly os dir_fd s3)"
            by blast
          with d d1 r1 rec d2 Inr d3 Inl
          have "parent' = parent1 \<and> child' = child1 \<and>
                steps s3 [Close dir_fd rc] s'"
            by (subst (asm) delete_path.simps)
               (auto simp: steps_def close_quietly_def syscall_def log_error_def split: prod.splits)
          then have "steps s (T1 @ T2 @ [Scandir dir_fd r3] @ [Close dir_fd rc]) s'"
            and pc: "parent' = parent1" "child' = child1"
            using t1 t2 t3 by (auto simp: steps_def)
          moreover have "node_ok parent parent1 child child1 (T1 @ T2 @ [Scandir dir_fd r3] @ [Close dir_fd rc])"
            using q1 fd1 o1 c1 k2 o2 p2 l2 Inr
            by (auto simp: node_ok_def quiet_def track_append add_of_bool_le split: if_splits)
          ultimately show ?thesis by blast
        next
          case it: (Inr it)
          from d d1 r1 rec d2 Inr d3 it obtain k where n: "n = Suc k"
            by (subst (asm) delete_path.simps) (auto split: nat.splits)
          from d d1 r1 rec d2 Inr d3 it n obtain r4 child2 s4 where
            d4: "scan_loop k os (path_join (p_name parent) (c_name child)) dir_fd it child1
                   force verbose True s3 = Some (r4, child2, s4)"
            by (subst (asm) delete_path.simps) (auto split: option.splits)
          from IHl [OF d4] n obtain T4 where
            t4: "steps s3 T4 s4" and ok4: "loop_ok dir_fd child1 child2 T4"
            by auto
          from tc obtain rc where
            t5: "steps (sys_scandir_close os it s4) [Close dir_fd rc]
                   (close_quietly os dir_fd (sys_scandir_close os it s4))"
            by blast
          have t45: "steps s (T1 @ T2 @ [Scandir dir_fd r3] @ T4 @ [ScandirClose it, Close dir_fd rc])
                       (close_quietly os dir_fd (sys_scandir_close os it s4))"
            using t1 t2 t3 t4 t5 steps_scandir_close [of s4 it os]
            by (auto simp: steps_def)
          have mid: "node_ok parent parent1 child child2
                       (T1 @ T2 @ [Scandir dir_fd r3] @ T4 @ [ScandirClose it, Close dir_fd rc])"
            using q1 fd1 o1 c1 k2 o2 p2 l2 Inr ok4
            by (auto simp: node_ok_def loop_ok_def quiet_def track_append add_of_bool_le
                split: if_splits)
          show ?thesis
          proof (cases r4)
            case (Inl x)
            with scan_loop_raises d4 obtain e4 where x: "x = OSError e4"
              by blast
            with d d1 r1 rec d2 Inr d3 it n d4 Inl
            have "parent' = parent1 \<and> child' = child2 \<and>
                  trace s' = trace (close_quietly os dir_fd (sys_scandir_close os it s4))"
              by (subst (asm) delete_path.simps)
                 (auto simp: close_quietly_def syscall_def log_error_def sys_scandir_close_def
                       split: prod.splits)
            with t45 mid show ?thesis by (auto simp: steps_def)
          next
            case ok: (Inr success)
            obtain r5 parent2 s5 where
              d5: "delete_single_with_chmod os parent1 child2 force verbose
                     (close_quietly os dir_fd (sys_scandir_close os it s4)) = (r5, parent2, s5)"
              by (cases "delete_single_with_chmod os parent1 child2 force verbose
                     (close_quietly os dir_fd (sys_scandir_close os it s4))") auto
            from steps_delete_single_with_chmod [OF d5] obtain T5 where
              t6: "steps (close_quietly os dir_fd (sys_scandir_close os it s4)) T5 s5"
              and q5: "quiet T5" and fd5: "p_fd parent2 = p_fd parent1"
              and o5: "\<forall>x. x \<noteq> p_fd parent1 \<longrightarrow> repairs x T5 = 0 \<and> chmods x T5 = 0"
              and c5: "repairs (p_fd parent1) T5 + of_bool (p_attempted_chmod parent1)
                         \<le> of_bool (p_attempted_chmod parent2)"
                      "chmods (p_fd parent1) T5 + of_bool (p_attempted_chmod parent1)
                         \<le> of_bool (p_attempted_chmod parent2)"
              by blast
            from d d1 r1 rec d2 Inr d3 it n d4 ok d5
            have "parent' = parent2 \<and> child' = child2 \<and> trace s' = trace s5"
              by (subst (asm) delete_path.simps) (auto simp: log_error_def split: sum.splits)
            then have "steps s ((T1 @ T2 @ [Scandir dir_fd r3] @ T4 @ [ScandirClose it, Close dir_fd rc]) @ T5) s'"
              and pc: "parent' = parent2" "child' = child2"
              using t45 t6 by (auto simp: steps_def)
            moreover have "node_ok parent parent2 child child2
                ((T1 @ T2 @ [Scandir dir_fd r3] @ T4 @ [ScandirClose it, Close dir_fd rc]) @ T5)"
              by (rule node_ok_then_delete [OF mid q5 fd5 o5 c5])
            ultimately show ?thesis by blast
          qed
        qed
      qed
    qed
  qed
  have loop: "\<exists>T. steps s T s' \<and> loop_ok dir_fd child child' T"
    if l: "scan_loop n os dir_name dir_fd it child force verbose success s = Some (res, child', s')"
    for os :: "'w os" and dir_name dir_fd it child force verbose success s res child' s'
  proof -
    obtain r1 s1 where d1: "sys_scandir_next os it s = (r1, s1)"
      by (cases "sys_scandir_next os it s") auto
    note t1 = steps_sys_scandir_next [OF d1]
    show ?thesis
    proof (cases "\<exists>nm. r1 = Inr (Some nm)")
      case False
      with l d1 have "child' = child \<and> s' = s1"
        by (subst (asm) scan_loop.simps) (auto split: sum.splits option.splits)
      with t1 loop_ok_end(1) show ?thesis by blast
    next
      case True
      then obtain nm where r1: "r1 = Inr (Some nm)" by blast
      obtain r2 s2 where d2: "sys_entry_is_dir os it nm s1 = (r2, s2)"
        by (cases "sys_entry_is_dir os it nm s1") auto
      note t2 = steps_sys_entry_is_dir [OF d2]
      from t1 t2 have t12: "steps s [ScandirNext it r1, EntryIsDir it nm r2] s2"
        by (simp add: steps_def)
      show ?thesis
      proof (cases r2)
        case (Inl e)
        with l d1 r1 d2 have "child' = child \<and> s' = s2"
          by (subst (asm) scan_loop.simps) auto
        with t12 loop_ok_end(2) show ?thesis by blast
      next
        case (Inr d)
        from l d1 r1 d2 Inr obtain k where n: "n = Suc k"
          by (subst (asm) scan_loop.simps) (auto split: nat.splits)
        from l d1 r1 d2 Inr n obtain r3 ctx' entry' s3 where
          d3: "delete_path k os
                 \<lparr>p_name = dir_name, p_fd = dir_fd, p_attempted_chmod = c_attempted_chmod child\<rparr>
                 \<lparr>c_name = fsencode nm, c_is_dir = d, c_attempted_chmod = False\<rparr>
                 force d verbose s2 = Some (r3, ctx', entry', s3)"
          by (subst (asm) scan_loop.simps) (auto split: option.splits)
        from delete_path_returns [OF d3] obtain b where r3: "r3 = Inr b" by blast
        from IHn [OF d3] n obtain T3 where
          t3: "steps s2 T3 s3"
          and ok3: "node_ok \<lparr>p_name = dir_name, p_fd = dir_fd, p_attempted_chmod = c_attempted_chmod child\<rparr>
                      ctx' \<lparr>c_name = fsencode nm, c_is_dir = d, c_attempted_chmod = False\<rparr> entry' T3"
          by auto
        from l d1 r1 d2 Inr n d3 r3 have
          d4: "scan_loop k os dir_name dir_fd it
                 (child\<lparr>c_attempted_chmod := c_attempted_chmod child \<or> p_attempted_chmod ctx'\<rparr>)
                 force verbose (success \<and> b) s3 = Some (res, child', s')"
          by (subst (asm) scan_loop.simps) auto
        from IHl [OF d4] n obtain T4 where
          t4: "steps s3 T4 s'"
          and ok4: "loop_ok dir_fd
                      (child\<lparr>c_attempted_chmod := c_attempted_chmod child \<or> p_attempted_chmod ctx'\<rparr>)
                      child' T4"
          by auto
        have "loop_ok dir_fd child child' (T3 @ T4)"
          by (rule loop_ok_step [OF ok3 _ _ ok4]) simp_all
        then have "loop_ok dir_fd child child' (ScandirNext it r1 # EntryIsDir it nm r2 # T3 @ T4)"
          by (rule loop_ok_listing)
        moreover from t12 t3 t4
        have "steps s (ScandirNext it r1 # EntryIsDir it nm r2 # T3 @ T4) s'"
          by (simp add: steps_def)
        ultimately show ?thesis by blast
      qed
    qed
  qed
  from node loop show ?case by blast
qed

subsection \<open>Descriptors are closed\<close>

lemma balanced_refl [simp]: "balanced s s"
  unfolding balanced_def by (rule exI [of _ "[]"]) simp

lemma balanced_trans: "balanced s s1 \<Longrightarrow> balanced s1 s2 \<Longrightarrow> balanced s s2"
  unfolding balanced_def
  apply clarify
  subgoal for T1 T2
    by (rule exI [of _ "T1 @ T2"]) (simp add: steps_trans track_append)
  done

lemma balanced_log_error [simp]: "balanced s (log_error m p c e s') = balanced s s'"
  by (simp add: balanced_def)

lemma balanced_event:
  "steps s [e] s' \<Longrightarrow> (\<forall>H. handle_step e H = Some H) \<Longrightarrow> balanced s s'"
  unfolding balanced_def by (rule exI [of _ "[e]"]) simp

lemma balanced_bracket:
  assumes "steps s [Open p d (Inr f)] s1" and "balanced s1 s2"
  shows "balanced s (close_quietly os f s2)"
proof -
  from assms(2) obtain T where t: "steps s1 T s2" and k: "\<forall>H. track T H = Some H"
    by (auto simp: balanced_def)
  from steps_close_quietly obtain rc where c: "steps s2 [Close f rc] (close_quietly os f s2)"
    by blast
  from assms(1) t c have "steps s (Open p d (Inr f) # T @ [Close f rc]) (close_quietly os f s2)"
    by (simp add: steps_def)
  moreover from k have "\<forall>H. track (Open p d (Inr f) # T @ [Close f rc]) H = Some H"
    by (simp add: track_append)
  ultimately show ?thesis by (auto simp: balanced_def)
qed

lemma balanced_delete_path:
  "delete_path fuel os parent child force recursive verbose s = Some (res, parent', child', s')
   \<Longrightarrow> balanced s s'"
  using traversal_invariant [of fuel, THEN conjunct1, rule_format, of os parent child force recursive verbose s res parent' child' s']
  by (auto simp: balanced_def node_ok_def)

lemma balanced_main_loop:
  "main_loop fuel os force recursive verbose paths success s = Some (res, s') \<Longrightarrow> balanced s s'"
proof (induction paths arbitrary: success s)
  case Nil
  then show ?case by simp
next
  case (Cons path paths)
  obtain r1 s1 where d1: "sys_realpath os path s = (r1, s1)"
    by (cases "sys_realpath os path s") auto
  then have b1: "balanced s s1"
    by (auto simp: sys_realpath_def intro!: balanced_event dest: steps_syscall)
  show ?case
  proof (cases r1)
    case (Inl e)
    with Cons.prems d1 obtain ok t where
      "main_loop fuel os force recursive verbose paths ok t = Some (res, s')" and "balanced s1 t"
      by (auto split: if_splits)
    with Cons.IH b1 show ?thesis by (blast intro: balanced_trans)
  next
    case (Inr rpath)
    obtain parent_name leaf where sp: "path_split rpath = (parent_name, leaf)"
      by (cases "path_split rpath") auto
    show ?thesis
    proof (cases "parent_name = []")
      case True
      with Cons.prems d1 Inr sp b1 show ?thesis by auto
    next
      case False
      obtain r2 s2 where d2: "sys_open os parent_name None s1 = (r2, s2)"
        by (cases "sys_open os parent_name None s1") auto
      then have t2: "steps s1 [Open parent_name None r2] s2"
        by (simp add: sys_open_def steps_syscall)
      show ?thesis
      proof (cases r2)
        case (Inl e)
        with t2 have "balanced s1 s2" by (auto intro!: balanced_event)
        moreover from Cons.prems d1 Inr sp False d2 Inl obtain ok t where
          "main_loop fuel os force recursive verbose paths ok t = Some (res, s')" and "balanced s2 t"
          by (auto split: if_splits)
        ultimately show ?thesis using Cons.IH b1 by (blast intro: balanced_trans)
      next
        case fd: (Inr parent_fd)
        obtain r3 s3 where d3: "sys_lstat os (if leaf = [] then ''.'' else leaf) parent_fd s2 = (r3, s3)"
          by (cases "sys_lstat os (if leaf = [] then ''.'' else leaf) parent_fd s2") auto
        then have b3: "balanced s2 s3"
          by (auto simp: sys_lstat_def intro!: balanced_event dest: steps_syscall)
        show ?thesis
        proof (cases r3)
          case (Inl e)
          from b3 have "balanced s2 (log_error ''Failed to stat'' parent_name
                          (if leaf = [] then ''.'' else leaf) e s3)"
            by simp
          from balanced_bracket [OF t2 [unfolded fd] this, of os]
          have "balanced s1 (close_quietly os parent_fd (log_error ''Failed to stat'' parent_name
                          (if leaf = [] then ''.'' else leaf) e s3))" .
          moreover from Cons.prems d1 Inr sp False d2 fd d3 Inl have
            "main_loop fuel os force recursive verbose paths False
               (close_quietly os parent_fd (log_error ''Failed to stat'' parent_name
                          (if leaf = [] then ''.'' else leaf) e s3)) = Some (res, s')"
            by simp
          ultimately show ?thesis using Cons.IH b1 by (blast intro: balanced_trans)
        next
          case st: (Inr st_mode)
          from Cons.prems d1 Inr sp False d2 fd d3 st obtain r4 p c s4 where
            d4: "delete_path fuel os
                   \<lparr>p_name = parent_name, p_fd = parent_fd, p_attempted_chmod = False\<rparr>
                   \<lparr>c_name = (if leaf = [] then ''.'' else leaf), c_is_dir = S_ISDIR st_mode,
                    c_attempted_chmod = False\<rparr>
                   force recursive verbose s3 = Some (r4, p, c, s4)"
            by (auto split: option.splits)
          from balanced_delete_path [OF d4] b3 have "balanced s2 s4"
            by (blast intro: balanced_trans)
          from balanced_bracket [OF t2 [unfolded fd] this, of os]
          have b4: "balanced s1 (close_quietly os parent_fd s4)" .
          show ?thesis
          proof (cases r4)
            case (Inl x)
            with Cons.prems d1 Inr sp False d2 fd d3 st d4
            have "s' = close_quietly os parent_fd s4" by simp
            with b1 b4 show ?thesis by (blast intro: balanced_trans)
          next
            case ok: (Inr b)
            with Cons.prems d1 Inr sp False d2 fd d3 st d4
            have "main_loop fuel os force recursive verbose paths (success \<and> b)
                    (close_quietly os parent_fd s4) = Some (res, s')"
              by simp
            with Cons.IH b1 b4 show ?thesis by (blast intro: balanced_trans)
          qed
        qed
      qed
    qed
  qed
qed

text \<open>
  C7. In the calls \<open>T\<close> of a whole run of the command that has returned, by a normal
  end or by an exception, every \<^verbatim>\<open>os.close\<close> closes a descriptor that an earlier
  \<^verbatim>\<open>os.open\<close> of the run returned and that has not been closed since, and at the
  end none is left open: each descriptor opened, the parent's and every directory's, is
  closed exactly once. The same holds of each \<open>delete_path\<close> on its own, whichever way
  it returns (deleted, failed, failed while listing): the descriptors open after it are
  those open before it.
\<close>

theorem every_handle_closed_once:
  "(main fuel os force recursive verbose paths s = Some (res, s') \<longrightarrow>
      (\<exists>T. trace s' = trace s @ T \<and> track T [] = Some []))
   \<and> (delete_path fuel os parent child force recursive verbose t = Some (r, parent', child', t') \<longrightarrow>
      (\<exists>T. trace t' = trace t @ T \<and> (\<forall>H. track T H = Some H)))"
  using balanced_main_loop [of fuel os force recursive verbose paths True s res s']
    balanced_delete_path [of fuel os parent child force recursive verbose t r parent' child' t']
  by (auto simp: main_def balanced_def steps_def)

text \<open>
  The recursive run on \<open>/l\<close>: descriptors 3 and 4 are opened and closed in turn, and
  the descriptor table is empty at the end.
\<close>

theorem every_handle_closed_once_witness:
  "main 5 posix False True False [''/l''] (init ex_fs) = Some (Inr True, ex_run_l)
   \<and> trace ex_run_l =
       [Realpath ''/l'' (Inr ''/d''), Open ''/'' None (Inr 3), Lstat ''d'' 3 (Inr 16877),
        Rmdir ''d'' 3 (Inl ENOTEMPTY), Open ''d'' (Some 3) (Inr 4), Scandir 4 (Inr 0),
        ScandirNext 0 (Inr (Some ''f'')), EntryIsDir 0 ''f'' (Inr False), Unlink ''f'' 4 (Inr ()),
        ScandirNext 0 (Inr (Some ''g'')), EntryIsDir 0 ''g'' (Inr False), Unlink ''g'' 4 (Inr ()),
        ScandirNext 0 (Inr None), ScandirClose 0, Close 4 (Inr ()), Rmdir ''d'' 3 (Inr ()),
        Close 3 (Inr ())]
   \<and> track (trace ex_run_l) [] = Some []
   \<and> fdtab (world ex_run_l) = []"
proof -
  have m: "main 5 posix False True False [''/l''] (init ex_fs) = Some (Inr True, ex_run_l)"
    by (simp add: ex_run_l_def run_simps)
  have t: "trace ex_run_l =
       [Realpath ''/l'' (Inr ''/d''), Open ''/'' None (Inr 3), Lstat ''d'' 3 (Inr 16877),
        Rmdir ''d'' 3 (Inl ENOTEMPTY), Open ''d'' (Some 3) (Inr 4), Scandir 4 (Inr 0),
        ScandirNext 0 (Inr (Some ''f'')), EntryIsDir 0 ''f'' (Inr False), Unlink ''f'' 4 (Inr ()),
        ScandirNext 0 (Inr (Some ''g'')), EntryIsDir 0 ''g'' (Inr False), Unlink ''g'' 4 (Inr ()),
        ScandirNext 0 (Inr None), ScandirClose 0, Close 4 (Inr ()), Rmdir ''d'' 3 (Inr ()),
        Close 3 (Inr ())]"
    by (simp add: ex_run_l_def run_simps)
  have f: "fdtab (world ex_run_l) = []"
    by (simp add: ex_run_l_def run_simps)
  from every_handle_closed_once [THEN conjunct1, rule_format, OF m]
  obtain T where "trace ex_run_l = trace (init ex_fs) @ T" and k: "track T [] = Some []"
    by blast
  then have "T = trace ex_run_l" by (simp add: init_def)
  with k have "track (trace ex_run_l) [] = Some []" by simp
  with m t f show ?thesis by simp
qed

subsection \<open>The repair flags\<close>

lemma node_ok_repairs:
  assumes "node_ok parent parent' child child' T" and "\<not> reopened (p_fd parent) T"
  shows "repairs (p_fd parent) T \<le> 1 \<and> chmods (p_fd parent) T \<le> 1
         \<and> (p_attempted_chmod parent \<longrightarrow> repairs (p_fd parent) T = 0 \<and> chmods (p_fd parent) T = 0)"
  using assms by (auto simp: node_ok_def add_of_bool_le split: if_splits)

lemma loop_ok_repairs:
  assumes "loop_ok dir_fd child child' T" and "\<not> reopened dir_fd T"
  shows "repairs dir_fd T \<le> 1 \<and> chmods dir_fd T \<le> 1
         \<and> (c_attempted_chmod child \<longrightarrow> repairs dir_fd T = 0 \<and> chmods dir_fd T = 0)"
  using assms by (auto simp: loop_ok_def add_of_bool_le split: if_splits)

text \<open>
  C6. Through a deletion attempt, an open, a whole \<open>delete_path\<close> and a whole loop
  over a directory's entries, a flag that is set stays set: the parent's and the
  child's alike. And among the calls \<open>T\<close> of one \<open>delete_path\<close>, the repair of
  the parent through its descriptor (\<^verbatim>\<open>fstat\<close>, then \<^verbatim>\<open>fchmod\<close>) is made at
  most once, and not at all when the parent's flag was set; among the calls of the
  loop that deletes all the entries of the directory open as \<open>dir_fd\<close>, the repair
  through \<open>dir_fd\<close> is made at most once for all the entries together, and not at
  all when the flag the loop starts with was set. Calls are told apart by the
  descriptor's number, so \<open>T\<close> is taken not to hold an open that returns that number
  again (an operating system does not hand out the number of an open descriptor).
\<close>

theorem repair_latch_only_rises:
  "(delete_single_with_chmod os parent child force verbose s = (r1, parent1, s1) \<longrightarrow>
      (p_attempted_chmod parent \<longrightarrow> p_attempted_chmod parent1))
   \<and> (open_with_chmod os parent child s = (r2, child2, s2) \<longrightarrow>
      (c_attempted_chmod child \<longrightarrow> c_attempted_chmod child2))
   \<and> (delete_path fuel os parent child force recursive verbose s = Some (r3, parent3, child3, s3) \<longrightarrow>
      (p_attempted_chmod parent \<longrightarrow> p_attempted_chmod parent3) \<and>
      (c_attempted_chmod child \<longrightarrow> c_attempted_chmod child3) \<and>
      (\<exists>T. trace s3 = trace s @ T \<and>
         (\<not> reopened (p_fd parent) T \<longrightarrow>
            repairs (p_fd parent) T \<le> 1 \<and> chmods (p_fd parent) T \<le> 1 \<and>
            (p_attempted_chmod parent \<longrightarrow>
               repairs (p_fd parent) T = 0 \<and> chmods (p_fd parent) T = 0))))
   \<and> (scan_loop fuel os dir_name dir_fd it child force verbose success s = Some (r4, child4, s4) \<longrightarrow>
      (c_attempted_chmod child \<longrightarrow> c_attempted_chmod child4) \<and>
      (\<exists>T. trace s4 = trace s @ T \<and>
         (\<not> reopened dir_fd T \<longrightarrow>
            repairs dir_fd T \<le> 1 \<and> chmods dir_fd T \<le> 1 \<and>
            (c_attempted_chmod child \<longrightarrow> repairs dir_fd T = 0 \<and> chmods dir_fd T = 0))))"
proof (intro conjI impI)
  assume "delete_single_with_chmod os parent child force verbose s = (r1, parent1, s1)"
    and "p_attempted_chmod parent"
  with steps_delete_single_with_chmod [of os parent child force verbose s r1 parent1 s1]
  show "p_attempted_chmod parent1"
    by (cases "p_attempted_chmod parent1") auto
next
  assume "open_with_chmod os parent child s = (r2, child2, s2)" and "c_attempted_chmod child"
  with steps_open_with_chmod [of os parent child s r2 child2 s2]
  show "c_attempted_chmod child2" by auto
next
  assume d: "delete_path fuel os parent child force recursive verbose s = Some (r3, parent3, child3, s3)"
  from traversal_invariant [of fuel, THEN conjunct1, rule_format, OF d]
  obtain T where t: "steps s T s3" and ok: "node_ok parent parent3 child child3 T"
    by blast
  { assume "p_attempted_chmod parent"
    with ok show "p_attempted_chmod parent3" by (simp add: node_ok_def) }
  { assume "c_attempted_chmod child"
    with ok show "c_attempted_chmod child3" by (simp add: node_ok_def) }
  from t node_ok_repairs [OF ok]
  show "\<exists>T. trace s3 = trace s @ T \<and>
         (\<not> reopened (p_fd parent) T \<longrightarrow>
            repairs (p_fd parent) T \<le> 1 \<and> chmods (p_fd parent) T \<le> 1 \<and>
            (p_attempted_chmod parent \<longrightarrow>
               repairs (p_fd parent) T = 0 \<and> chmods (p_fd parent) T = 0))"
    by (auto simp: steps_def)
next
  assume l: "scan_loop fuel os dir_name dir_fd it child force verbose success s = Some (r4, child4, s4)"
  from traversal_invariant [of fuel, THEN conjunct2, rule_format, OF l]
  obtain T where t: "steps s T s4" and ok: "loop_ok dir_fd child child4 T"
    by blast
  { assume "c_attempted_chmod child"
    with ok show "c_attempted_chmod child4" by (simp add: loop_ok_def) }
  from t loop_ok_repairs [OF ok]
  show "\<exists>T. trace s4 = trace s @ T \<and>
         (\<not> reopened dir_fd T \<longrightarrow>
            repairs dir_fd T \<le> 1 \<and> chmods dir_fd T \<le> 1 \<and>
            (c_attempted_chmod child \<longrightarrow> repairs dir_fd T = 0 \<and> chmods dir_fd T = 0))"
    by (auto simp: steps_def)
qed

text \<open>
  The two files of \<open>/foreign\<close>: the unlink of \<open>y\<close> is refused, the one repair is
  tried through descriptor 4 and fails, and the refused unlink of \<open>z\<close> is followed by
  no second repair.
\<close>

theorem repair_latch_only_rises_witness:
  "trace ex_for3 =
     [Open ''/'' None (Inr 3), Rmdir ''foreign'' 3 (Inl ENOTEMPTY), Open ''foreign'' (Some 3) (Inr 4),
      Scandir 4 (Inr 0)]
   \<and> scan_loop 3 posix ''/foreign'' 4 0 (ex_child ''foreign'' True) False False True ex_for3 =
       Some (Inr False, (ex_child ''foreign'' True)\<lparr>c_attempted_chmod := True\<rparr>, ex_for4)
   \<and> trace ex_for4 = trace ex_for3 @ ex_for_calls
   \<and> stderr ex_for4 =
       [LogError ''Failed to make writable'' ''/foreign/'' EPERM,
        LogError ''Failed to delete'' ''/foreign/y'' EACCES,
        LogError ''Failed to delete'' ''/foreign/z'' EACCES]
   \<and> \<not> reopened 4 ex_for_calls
   \<and> repairs 4 ex_for_calls = 1 \<and> chmods 4 ex_for_calls = 1"
proof -
  have s3: "trace ex_for3 =
     [Open ''/'' None (Inr 3), Rmdir ''foreign'' 3 (Inl ENOTEMPTY), Open ''foreign'' (Some 3) (Inr 4),
      Scandir 4 (Inr 0)]"
    by (simp add: ex_for3_def ex_for2_def ex_for1_def run_simps)
  have l: "scan_loop 3 posix ''/foreign'' 4 0 (ex_child ''foreign'' True) False False True ex_for3 =
       Some (Inr False, (ex_child ''foreign'' True)\<lparr>c_attempted_chmod := True\<rparr>, ex_for4)"
    by (simp add: ex_for4_def ex_for3_def ex_for2_def ex_for1_def run_simps)
  have t: "trace ex_for4 = trace ex_for3 @ ex_for_calls"
    by (simp add: ex_for_calls_def ex_for4_def ex_for3_def ex_for2_def ex_for1_def run_simps)
  have e: "stderr ex_for4 =
       [LogError ''Failed to make writable'' ''/foreign/'' EPERM,
        LogError ''Failed to delete'' ''/foreign/y'' EACCES,
        LogError ''Failed to delete'' ''/foreign/z'' EACCES]"
    by (simp add: ex_for4_def ex_for3_def ex_for2_def ex_for1_def run_simps)
  have n: "\<not> reopened 4 ex_for_calls"
    by (simp add: ex_for_calls_def)
  have c: "repairs 4 ex_for_calls = 1 \<and> chmods 4 ex_for_calls = 1"
    by (simp add: ex_for_calls_def)
  from repair_latch_only_rises [THEN conjunct2, THEN conjunct2, THEN conjunct2, rule_format, OF l]
  obtain T where "trace ex_for4 = trace ex_for3 @ T"
    and b: "\<not> reopened 4 T \<longrightarrow> repairs 4 T \<le> 1 \<and> chmods 4 T \<le> 1"
    by blast
  with t have "T = ex_for_calls" by simp
  with b n have "repairs 4 ex_for_calls \<le> 1 \<and> chmods 4 ex_for_calls \<le> 1" by simp
  with s3 l t e n c show ?thesis by simp
qed

subsection \<open>Children before their parent\<close>

lemma scan_loop_children_results:
  "scan_loop fuel os dir_name dir_fd it child force verbose success s =
     (case children_results fuel os dir_name dir_fd it child force verbose s of
        None \<Rightarrow> None
      | Some (Inl x, child', s') \<Rightarrow> Some (Inl x, child', s')
      | Some (Inr rs, child', s') \<Rightarrow> Some (Inr (success \<and> list_all id rs), child', s'))"
proof (induction fuel arbitrary: child success s)
  case 0
  show ?case
    by (subst scan_loop.simps, subst children_results.simps)
       (auto split: prod.splits sum.splits option.splits)
next
  case (Suc k)
  show ?case
    by (subst scan_loop.simps, subst children_results.simps)
       (auto simp: Suc split: prod.splits sum.splits option.splits)
qed

lemma children_results_listed:
  "children_results fuel os dir_name dir_fd it child force verbose s = Some (Inr rs, child', s')
   \<Longrightarrow> (\<exists>T. trace s' = trace s @ T) \<and> last (trace s') = ScandirNext it (Inr None)"
proof (induction fuel arbitrary: child s rs)
  case 0
  then show ?case
    by (subst (asm) children_results.simps)
       (auto simp: sys_scandir_next_def syscall_def split: prod.splits sum.splits option.splits)
next
  case (Suc k)
  from Suc.prems show ?case
    apply (subst (asm) children_results.simps)
    apply (auto split: prod.splits sum.splits option.splits)
       apply (auto simp: sys_scandir_next_def syscall_def split: prod.splits)[2]
     apply (drule steps_sys_scandir_next, drule steps_sys_entry_is_dir)
     apply (frule traversal_invariant [THEN conjunct1, rule_format])
     apply (drule Suc.IH)
     apply (auto simp: steps_def)[1]
    apply (drule Suc.IH)
    apply simp
    done
qed

text \<open>
  C1. A directory node processed with \<open>recursive\<close> set whose direct deletion failed,
  that was opened, and whose listing ran to its end with the children's results
  \<open>rs\<close> (one per entry listed, each the result of that entry's own \<open>delete_path\<close>,
  collected whatever the earlier results were): the final deletion is attempted in the
  state the last child left, after the iterator and the descriptor are closed; the
  node's result is the conjunction of all of \<open>rs\<close> and of the success of that final
  attempt; the listing's last call is the one that found no further entry, so no failure
  of a child ended it; and the calls of the final attempt come after every call of the
  children.
\<close>

theorem children_before_parent:
  assumes "delete_single_with_chmod os parent child force verbose s = (Inl e, parent1, s1)"
    and "c_is_dir child"
    and "open_with_chmod os parent1 child s1 = (Inr dir_fd, child1, s2)"
    and "sys_scandir os dir_fd s2 = (Inr it, s3)"
    and "children_results k os (path_join (p_name parent) (c_name child)) dir_fd it child1
           force verbose s3 = Some (Inr rs, child2, s4)"
    and "delete_single_with_chmod os parent1 child2 force verbose
           (close_quietly os dir_fd (sys_scandir_close os it s4)) = (final, parent2, s5)"
  shows "delete_path (Suc k) os parent child force True verbose s =
           Some (Inr (list_all id rs \<and> (case final of Inr u \<Rightarrow> True | Inl e5 \<Rightarrow> False)),
                 parent2, child2,
                 (case final of
                    Inr u \<Rightarrow> s5
                  | Inl e5 \<Rightarrow> log_error ''Failed to delete'' (p_name parent) (c_name child) e5 s5))
         \<and> last (trace s4) = ScandirNext it (Inr None)
         \<and> (\<exists>T U. trace s4 = trace s3 @ T \<and> trace s5 = trace s4 @ ScandirClose it # U)"
proof -
  have a: "delete_path (Suc k) os parent child force True verbose s =
           Some (Inr (list_all id rs \<and> (case final of Inr u \<Rightarrow> True | Inl e5 \<Rightarrow> False)),
                 parent2, child2,
                 (case final of
                    Inr u \<Rightarrow> s5
                  | Inl e5 \<Rightarrow> log_error ''Failed to delete'' (p_name parent) (c_name child) e5 s5))"
    using assms
    by (subst delete_path.simps) (simp add: scan_loop_children_results split: sum.splits)
  note b = children_results_listed [OF assms(5)]
  from steps_delete_single_with_chmod [OF assms(6)] steps_close_quietly [of _ dir_fd os]
  have "\<exists>U. trace s5 = trace s4 @ ScandirClose it # U"
    by (auto simp: steps_def sys_scandir_close_def close_quietly_def syscall_def split: prod.splits)
  with a b show ?thesis by blast
qed

text \<open>
  \<open>/mix\<close>: the first child, another user's directory, fails (its file cannot be
  unlinked), the second child is still unlinked, the final \<^verbatim>\<open>rmdir\<close> is attempted
  last and fails, and the node's result is false.
\<close>

theorem children_before_parent_witness:
  "delete_single_with_chmod posix (ex_parent ''/'') (ex_child ''mix'' True) False False (ex_at ''/'')
     = (Inl ENOTEMPTY, ex_parent ''/'', ex_mix1)
   \<and> open_with_chmod posix (ex_parent ''/'') (ex_child ''mix'' True) ex_mix1
       = (Inr 4, ex_child ''mix'' True, ex_mix2)
   \<and> sys_scandir posix 4 ex_mix2 = (Inr 0, ex_mix3)
   \<and> children_results 4 posix ''/mix'' 4 0 (ex_child ''mix'' True) False False ex_mix3
       = Some (Inr [False, True], ex_child ''mix'' True, ex_mix4)
   \<and> delete_single_with_chmod posix (ex_parent ''/'') (ex_child ''mix'' True) False False
         (close_quietly posix 4 (sys_scandir_close posix 0 ex_mix4))
       = (Inl ENOTEMPTY, ex_parent ''/'', ex_mix5)
   \<and> delete_path (Suc 4) posix (ex_parent ''/'') (ex_child ''mix'' True) False True False (ex_at ''/'')
       = Some (Inr False, ex_parent ''/'', ex_child ''mix'' True,
               log_error ''Failed to delete'' ''/'' ''mix'' ENOTEMPTY ex_mix5)
   \<and> trace ex_mix5 =
       [Open ''/'' None (Inr 3), Rmdir ''mix'' 3 (Inl ENOTEMPTY),
        Open ''mix'' (Some 3) (Inr 4), Scandir 4 (Inr 0),
        ScandirNext 0 (Inr (Some ''sub'')), EntryIsDir 0 ''sub'' (Inr True),
        Rmdir ''sub'' 4 (Inl ENOTEMPTY), Open ''sub'' (Some 4) (Inr 5),
        Scandir 5 (Inr 1), ScandirNext 1 (Inr (Some ''t'')),
        EntryIsDir 1 ''t'' (Inr False), Unlink ''t'' 5 (Inl EACCES),
        Fstat 5 (Inr 16749), Fchmod 5 493 (Inl EPERM),
        ScandirNext 1 (Inr None), ScandirClose 1, Close 5 (Inr ()),
        Rmdir ''sub'' 4 (Inl ENOTEMPTY), ScandirNext 0 (Inr (Some ''u'')),
        EntryIsDir 0 ''u'' (Inr False), Unlink ''u'' 4 (Inr ()),
        ScandirNext 0 (Inr None), ScandirClose 0, Close 4 (Inr ()),
        Rmdir ''mix'' 3 (Inl ENOTEMPTY)]"
proof -
  have h1: "delete_single_with_chmod posix (ex_parent ''/'') (ex_child ''mix'' True) False False (ex_at ''/'')
     = (Inl ENOTEMPTY, ex_parent ''/'', ex_mix1)"
    by (simp add: ex_mix1_def run_simps)
  have h2: "c_is_dir (ex_child ''mix'' True)"
    by (simp add: ex_child_def)
  have h3: "open_with_chmod posix (ex_parent ''/'') (ex_child ''mix'' True) ex_mix1
       = (Inr 4, ex_child ''mix'' True, ex_mix2)"
    by (simp add: ex_mix2_def ex_mix1_def run_simps)
  have h4: "sys_scandir posix 4 ex_mix2 = (Inr 0, ex_mix3)"
    by (simp add: ex_mix3_def ex_mix2_def ex_mix1_def run_simps)
  have h5: "children_results 4 posix
              (path_join (p_name (ex_parent ''/'')) (c_name (ex_child ''mix'' True))) 4 0
              (ex_child ''mix'' True) False False ex_mix3
       = Some (Inr [False, True], ex_child ''mix'' True, ex_mix4)"
    by (simp add: ex_mix4_def ex_mix3_def ex_mix2_def ex_mix1_def children_results.simps run_simps)
  have h6: "delete_single_with_chmod posix (ex_parent ''/'') (ex_child ''mix'' True) False False
         (close_quietly posix 4 (sys_scandir_close posix 0 ex_mix4))
       = (Inl ENOTEMPTY, ex_parent ''/'', ex_mix5)"
    by (simp add: ex_mix5_def ex_mix4_def ex_mix3_def ex_mix2_def ex_mix1_def
          children_results.simps run_simps)
  have t: "trace ex_mix5 =
       [Open ''/'' None (Inr 3), Rmdir ''mix'' 3 (Inl ENOTEMPTY),
        Open ''mix'' (Some 3) (Inr 4), Scandir 4 (Inr 0),
        ScandirNext 0 (Inr (Some ''sub'')), EntryIsDir 0 ''sub'' (Inr True),
        Rmdir ''sub'' 4 (Inl ENOTEMPTY), Open ''sub'' (Some 4) (Inr 5),
        Scandir 5 (Inr 1), ScandirNext 1 (Inr (Some ''t'')),
        EntryIsDir 1 ''t'' (Inr False), Unlink ''t'' 5 (Inl EACCES),
        Fstat 5 (Inr 16749), Fchmod 5 493 (Inl EPERM),
        ScandirNext 1 (Inr None), ScandirClose 1, Close 5 (Inr ()),
        Rmdir ''sub'' 4 (Inl ENOTEMPTY), ScandirNext 0 (Inr (Some ''u'')),
        EntryIsDir 0 ''u'' (Inr False), Unlink ''u'' 4 (Inr ()),
        ScandirNext 0 (Inr None), ScandirClose 0, Close 4 (Inr ()),
        Rmdir ''mix'' 3 (Inl ENOTEMPTY)]"
    by (simp add: ex_mix5_def ex_mix4_def ex_mix3_def ex_mix2_def ex_mix1_def
          children_results.simps run_simps)
  have p: "path_join (p_name (ex_parent ''/'')) (c_name (ex_child ''mix'' True)) = ''/mix''"
    by (simp add: ex_parent_def ex_child_def path_join_def)
  from children_before_parent [OF h1 h2 h3 h4 h5 h6, THEN conjunct1]
  have r: "delete_path (Suc 4) posix (ex_parent ''/'') (ex_child ''mix'' True) False True False (ex_at ''/'')
       = Some (Inr False, ex_parent ''/'', ex_child ''mix'' True,
               log_error ''Failed to delete'' ''/'' ''mix'' ENOTEMPTY ex_mix5)"
    by (simp add: ex_parent_def ex_child_def)
  from h1 h3 h4 h5 [unfolded p] h6 r t show ?thesis by simp
qed

subsection \<open>Missing paths under \<open>force\<close>\<close>

text \<open>
  C4 at the input where it fails. The empty directory \<open>/e\<close> is given with \<open>force\<close>
  set, and another process removes it after the script has resolved the path and opened
  the parent, before the script's \<^verbatim>\<open>lstat\<close> of the leaf. The \<^verbatim>\<open>lstat\<close> raises
  \<^verbatim>\<open>FileNotFoundError\<close>; the script logs it as a failure to stat and the run ends
  with \<open>success\<close> false.
\<close>

theorem leaf_vanishes_before_stat:
  "map_option (\<lambda>r. (fst r, trace (snd r), stderr (snd r)))
     (main 0 (racy posix) True False False [''/e'']
        (init (ex_fs, [id, id, other_unlink 0 ''e'']))) =
   Some (Inr False,
         [Realpath ''/e'' (Inr ''/e''), Open ''/'' None (Inr 3), Lstat ''e'' 3 (Inl ENOENT),
          Close 3 (Inr ())],
         [LogError ''Failed to stat'' ''/e'' ENOENT])"
  by (simp add: racy_def racing_def interfere_def other_unlink_def run_simps)

text \<open>
  Where \<open>force\<close> does turn a \<^verbatim>\<open>FileNotFoundError\<close> into success: in the
  resolution of a top-level path and the open of its parent (the path is skipped and
  \<open>success\<close> kept), in a deletion attempt, and in the open of a directory for
  traversal. The last clause is the \<^verbatim>\<open>lstat\<close> of the leaf, where every error,
  this one included, is logged and sets \<open>success\<close> to false whatever \<open>force\<close> is.
\<close>

lemma force_tolerates_missing:
  "(sys_realpath os path s = (Inl e, s1) \<and> is_FileNotFoundError e \<longrightarrow>
      main_loop fuel os True recursive verbose (path # paths) success s =
        main_loop fuel os True recursive verbose paths success s1)
   \<and> (sys_realpath os path s = (Inr rpath, s1) \<and> path_split rpath = (parent_name, leaf) \<and>
       parent_name \<noteq> [] \<and> sys_open os parent_name None s1 = (Inl e, s2) \<and>
       is_FileNotFoundError e \<longrightarrow>
      main_loop fuel os True recursive verbose (path # paths) success s =
        main_loop fuel os True recursive verbose paths success s2)
   \<and> (delete_single os parent child t = (Inl e, t1) \<and> is_FileNotFoundError e \<longrightarrow>
      delete_path fuel os parent child True recursive verbose t = Some (Inr True, parent, child, t1))
   \<and> (delete_single_with_chmod os parent child True verbose t = (Inl e', parent1, t1) \<and>
       recursive \<and> c_is_dir child \<and>
       open_with_chmod os parent1 child t1 = (Inl (OSError e), child1, t2) \<and>
       is_FileNotFoundError e \<longrightarrow>
      delete_path fuel os parent child True recursive verbose t = Some (Inr True, parent1, child1, t2))
   \<and> (sys_realpath os path s = (Inr rpath, s1) \<and> path_split rpath = (parent_name, leaf) \<and>
       parent_name \<noteq> [] \<and> sys_open os parent_name None s1 = (Inr parent_fd, s2) \<and>
       sys_lstat os (if leaf = [] then ''.'' else leaf) parent_fd s2 = (Inl e, s3) \<longrightarrow>
      main_loop fuel os True recursive verbose (path # paths) success s =
        main_loop fuel os True recursive verbose paths False
          (close_quietly os parent_fd
             (log_error ''Failed to stat'' parent_name (if leaf = [] then ''.'' else leaf) e s3)))"
  by (auto simp: delete_path.simps delete_single_with_chmod_def is_FileNotFoundError_def
        is_PermissionError_def)

subsection \<open>A listed directory replaced by a symbolic link\<close>

text \<open>
  C10 at the input where it fails. \<open>/mix\<close> is deleted with \<open>recursive\<close> set. Its
  entry \<open>sub\<close> is listed and classified as a directory; then another process puts a
  symbolic link to \<open>/d\<close> in its place. The \<^verbatim>\<open>rmdir\<close> of \<open>sub\<close> is refused,
  the \<^verbatim>\<open>os.open\<close> of \<open>sub\<close> relative to the descriptor of \<open>/mix\<close> follows the
  link and opens \<open>/d\<close>, and the script lists \<open>/d\<close> and unlinks its two files: a
  directory outside the tree it was given is emptied through the link.
\<close>

theorem listed_directory_swapped_for_link:
  "map_option (\<lambda>r. (fst r, trace (snd r), stderr (snd r),
                     map_option i_kind (map_of (inodes (fst (world (snd r)))) 1)))
     (main 5 (racy posix) False True False [''/mix'']
        (init (ex_fs, [id, id, id, id, id, id, id, id, other_symlink 14 ''sub'' 19 ''/d'']))) =
   Some (Inr False,
         [Realpath ''/mix'' (Inr ''/mix''), Open ''/'' None (Inr 3),
          Lstat ''mix'' 3 (Inr 16877), Rmdir ''mix'' 3 (Inl ENOTEMPTY),
          Open ''mix'' (Some 3) (Inr 4), Scandir 4 (Inr 0),
          ScandirNext 0 (Inr (Some ''sub'')), EntryIsDir 0 ''sub'' (Inr True),
          Rmdir ''sub'' 4 (Inl ENOTDIR), Open ''sub'' (Some 4) (Inr 5),
          Scandir 5 (Inr 1), ScandirNext 1 (Inr (Some ''f'')),
          EntryIsDir 1 ''f'' (Inr False), Unlink ''f'' 5 (Inr ()),
          ScandirNext 1 (Inr (Some ''g'')), EntryIsDir 1 ''g'' (Inr False),
          Unlink ''g'' 5 (Inr ()), ScandirNext 1 (Inr None), ScandirClose 1,
          Close 5 (Inr ()), Rmdir ''sub'' 4 (Inl ENOTDIR),
          ScandirNext 0 (Inr (Some ''u'')), EntryIsDir 0 ''u'' (Inr False),
          Unlink ''u'' 4 (Inr ()), ScandirNext 0 (Inr None), ScandirClose 0,
          Close 4 (Inr ()), Rmdir ''mix'' 3 (Inl ENOTEMPTY), Close 3 (Inr ())],
         [LogError ''Failed to delete'' ''/mix/sub'' ENOTDIR,
          LogError ''Failed to delete'' ''/mix'' ENOTEMPTY],
         Some (Dir []))
   \<and> map_option i_kind (map_of (inodes ex_fs) 1) = Some (Dir [(''f'', 2), (''g'', 3)])
   \<and> lookup (other_symlink 14 ''sub'' 19 ''/d'' ex_fs) 14 ''sub'' = Inr 19
   \<and> map_option i_kind (map_of (inodes (other_symlink 14 ''sub'' 19 ''/d'' ex_fs)) 19) = Some (Lnk ''/d'')"
  by (simp add: racy_def racing_def interfere_def other_symlink_def run_simps)

text \<open>The same run with no other process: \<open>/d\<close> keeps its two files.\<close>

lemma listed_directory_left_alone:
  "map_option (\<lambda>r. (fst r, trace (snd r), stderr (snd r),
                     map_option i_kind (map_of (inodes (fst (world (snd r)))) 1)))
     (main 5 (racy posix) False True False [''/mix''] (init (ex_fs, []))) =
   Some (Inr False,
         [Realpath ''/mix'' (Inr ''/mix''), Open ''/'' None (Inr 3),
          Lstat ''mix'' 3 (Inr 16877), Rmdir ''mix'' 3 (Inl ENOTEMPTY),
          Open ''mix'' (Some 3) (Inr 4), Scandir 4 (Inr 0),
          ScandirNext 0 (Inr (Some ''sub'')), EntryIsDir 0 ''sub'' (Inr True),
          Rmdir ''sub'' 4 (Inl ENOTEMPTY), Open ''sub'' (Some 4) (Inr 5),
          Scandir 5 (Inr 1), ScandirNext 1 (Inr (Some ''t'')),
          EntryIsDir 1 ''t'' (Inr False), Unlink ''t'' 5 (Inl EACCES),
          Fstat 5 (Inr 16749), Fchmod 5 493 (Inl EPERM), ScandirNext 1 (Inr None),
          ScandirClose 1, Close 5 (Inr ()), Rmdir ''sub'' 4 (Inl ENOTEMPTY),
          ScandirNext 0 (Inr (Some ''u'')), EntryIsDir 0 ''u'' (Inr False),
          Unlink ''u'' 4 (Inr ()), ScandirNext 0 (Inr None), ScandirClose 0,
          Close 4 (Inr ()), Rmdir ''mix'' 3 (Inl ENOTEMPTY), Close 3 (Inr ())],
         [LogError ''Failed to make writable'' ''/mix/sub/'' EPERM,
          LogError ''Failed to delete'' ''/mix/sub/t'' EACCES,
          LogError ''Failed to delete'' ''/mix/sub'' ENOTEMPTY,
          LogError ''Failed to delete'' ''/mix'' ENOTEMPTY],
         Some (Dir [(''f'', 2), (''g'', 3)]))"
  by (simp add: racy_def racing_def interfere_def run_simps)

end
